theory Spec2Isabelle
  imports Complex_Main "HOL-Library.AList"
begin

section \<open>Objects of the script: tensors and dictionaries on a heap\<close>

text \<open>
  The script \<^verbatim>\<open>examples/nodeproppred/mag/rgcn.py\<close> passes tensors and dictionaries
  around by reference and updates some of them in place (\<^verbatim>\<open>add_\<close>, \<^verbatim>\<open>relu_\<close>,
  \<^verbatim>\<open>x_dict[key] = ...\<close>). Both kinds of object therefore live in a heap: a tensor
  reference is an index into \<open>tensors\<close>, a dictionary reference an index into
  \<open>dicts\<close>. A new object is appended, so a reference handed out once stays valid.
  The state of torch's random number generator, which dropout and the initialisers
  draw from, is kept with the objects.
  A Python dictionary with string keys is an association list in insertion order;
  \<open>AList.update\<close> replaces the value of a present key in place and appends a new key,
  as \<^verbatim>\<open>d[k] = v\<close> does.
\<close>

datatype error = KeyError | IndexError | ZeroDivisionError | AttributeError | SystemExit

type_synonym tref = nat
type_synonym dref = nat
type_synonym edge_type = "string \<times> string \<times> string"

record ('t, 'g) heap =
  tensors :: "'t list"
  dicts :: "(string \<times> tref) list list"
  rng :: 'g

definition alloc :: "'t \<Rightarrow> ('t, 'g) heap \<Rightarrow> tref \<times> ('t, 'g) heap" where
  "alloc t h = (length (tensors h), h\<lparr>tensors := tensors h @ [t]\<rparr>)"

definition new_dict :: "(string \<times> tref) list \<Rightarrow> ('t, 'g) heap \<Rightarrow> dref \<times> ('t, 'g) heap" where
  "new_dict d h = (length (dicts h), h\<lparr>dicts := dicts h @ [d]\<rparr>)"

definition dict_set :: "dref \<Rightarrow> string \<Rightarrow> tref \<Rightarrow> ('t, 'g) heap \<Rightarrow> ('t, 'g) heap" where
  "dict_set d k a h = h\<lparr>dicts := (dicts h)[d := AList.update k a (dicts h ! d)]\<rparr>"

definition write_tensor :: "tref \<Rightarrow> 't \<Rightarrow> ('t, 'g) heap \<Rightarrow> ('t, 'g) heap" where
  "write_tensor a t h = h\<lparr>tensors := (tensors h)[a := t]\<rparr>"

section \<open>The tensor library\<close>

text \<open>
  The numerical kernels belong to torch and torch\_sparse, not to the script. They are
  parameters of the model: \<open>linear w x\<close> is \<^verbatim>\<open>Linear.forward\<close> of a layer with
  parameters \<open>w\<close>, \<open>matmul_mean adj x\<close> is \<^verbatim>\<open>adj.matmul(x, reduce='mean')\<close>,
  \<open>add\<close> is the sum that \<^verbatim>\<open>add_\<close> stores into its receiver, \<open>relu\<close> the value
  that \<^verbatim>\<open>relu_\<close> stores into its argument. \<open>F_dropout p training x g\<close> is
  \<^verbatim>\<open>F.dropout(x, p=p, training=training)\<close> with the generator in state
  \<open>g\<close>: its first component is \<open>None\<close> when the call hands back its argument itself
  and \<open>Some t\<close> when it returns a new tensor \<open>t\<close>, its second component the state of
  the generator afterwards; in neither case does it write to its argument.
\<close>

record ('t, 'g, 'w, 'a) torch =
  linear :: "'w \<Rightarrow> 't \<Rightarrow> 't"
  matmul_mean :: "'a \<Rightarrow> 't \<Rightarrow> 't"
  add :: "'t \<Rightarrow> 't \<Rightarrow> 't"
  relu :: "'t \<Rightarrow> 't"
  F_dropout :: "rat \<Rightarrow> bool \<Rightarrow> 't \<Rightarrow> 'g \<Rightarrow> 't option \<times> 'g"
  log_softmax :: "'t \<Rightarrow> 't"

section \<open>RGCNConv\<close>

text \<open>
  \<^verbatim>\<open>ModuleDict\<close> takes string keys only, so the layer of edge type \<open>key\<close> is stored
  under \<^verbatim>\<open>f'{key[0]}_{key[1]}_{key[2]}'\<close>.
\<close>

fun key_str :: "edge_type \<Rightarrow> string" where
  "key_str (s, r, d) = s @ ''_'' @ r @ ''_'' @ d"

record 'w RGCNConv =
  node_types :: "string list"
  edge_types :: "edge_type list"
  rel_lins :: "(string \<times> 'w) list"
  root_lins :: "(string \<times> 'w) list"

text \<open>
  First loop of \<^verbatim>\<open>RGCNConv.forward\<close>:
  \<^verbatim>\<open>for key in self.node_types: out_dict[key] = self.root_lins[key](x_dict[key])\<close>.
  The right-hand side is evaluated first (two lookups, either may raise
  \<^verbatim>\<open>KeyError\<close>); the linear layer returns a new tensor.
\<close>

fun root_loop ::
  "('t, 'g, 'w, 'a) torch \<Rightarrow> 'w RGCNConv \<Rightarrow> dref \<Rightarrow> dref \<Rightarrow> string list \<Rightarrow> ('t, 'g) heap
     \<Rightarrow> error + ('t, 'g) heap" where
  "root_loop T c xd od [] h = Inr h"
| "root_loop T c xd od (key # ks) h =
     (case map_of (root_lins c) key of
        None \<Rightarrow> Inl KeyError
      | Some lin \<Rightarrow>
          (case map_of (dicts h ! xd) key of
             None \<Rightarrow> Inl KeyError
           | Some a \<Rightarrow>
               (let (t, h1) = alloc (linear T lin (tensors h ! a)) h
                in root_loop T c xd od ks (dict_set od key t h1))))"

text \<open>
  Second loop: for every edge type, in the order of \<^verbatim>\<open>self.edge_types\<close>,
  \<^verbatim>\<open>x = x_dict[key[0]]; adj_t = adj_t_dict[key];
  out = self.rel_lins[key_str](adj_t.matmul(x, reduce='mean'));
  out_dict[key[2]].add_(out)\<close>.
  The two intermediate tensors are new and never referenced again, so only the
  in-place \<^verbatim>\<open>add_\<close> touches the heap.
\<close>

fun rel_loop ::
  "('t, 'g, 'w, 'a) torch \<Rightarrow> 'w RGCNConv \<Rightarrow> dref \<Rightarrow> (edge_type \<times> 'a) list \<Rightarrow> dref
     \<Rightarrow> edge_type list \<Rightarrow> ('t, 'g) heap \<Rightarrow> error + ('t, 'g) heap" where
  "rel_loop T c xd adj_t_dict od [] h = Inr h"
| "rel_loop T c xd adj_t_dict od (key # ks) h =
     (case map_of (dicts h ! xd) (fst key) of
        None \<Rightarrow> Inl KeyError
      | Some a \<Rightarrow>
          (case map_of adj_t_dict key of
             None \<Rightarrow> Inl KeyError
           | Some adj_t \<Rightarrow>
               (case map_of (rel_lins c) (key_str key) of
                  None \<Rightarrow> Inl KeyError
                | Some lin \<Rightarrow>
                    (let out = linear T lin (matmul_mean T adj_t (tensors h ! a))
                     in (case map_of (dicts h ! od) (snd (snd key)) of
                           None \<Rightarrow> Inl KeyError
                         | Some b \<Rightarrow>
                             rel_loop T c xd adj_t_dict od ks
                               (write_tensor b (add T (tensors h ! b) out) h))))))"

definition RGCNConv_forward ::
  "('t, 'g, 'w, 'a) torch \<Rightarrow> 'w RGCNConv \<Rightarrow> dref \<Rightarrow> (edge_type \<times> 'a) list \<Rightarrow> ('t, 'g) heap
     \<Rightarrow> error + (dref \<times> ('t, 'g) heap)" where
  "RGCNConv_forward T c xd adj_t_dict h =
     (let (od, h0) = new_dict [] h
      in (case root_loop T c xd od (node_types c) h0 of
            Inl e \<Rightarrow> Inl e
          | Inr h1 \<Rightarrow>
              (case rel_loop T c xd adj_t_dict od (edge_types c) h1 of
                 Inl e \<Rightarrow> Inl e
               | Inr h2 \<Rightarrow> Inr (od, h2))))"

section \<open>RGCN\<close>

text \<open>
  The parameters of the model that \<^verbatim>\<open>forward\<close> reads: the embeddings are tensors of
  their own on the heap (\<^verbatim>\<open>ParameterDict\<close>), the linear layers are seen through
  their parameters \<open>'w\<close>. A Python float that the script only passes on is written
  as the rational number of its decimal literal. \<open>training\<close> is the flag set by \<^verbatim>\<open>model.train()\<close> and
  cleared by \<^verbatim>\<open>model.eval()\<close>.
\<close>

record 'w RGCN =
  out_type :: string
  embs :: "(string \<times> tref) list"
  lins :: "(string \<times> 'w) list"
  convs :: "'w RGCNConv list"
  dropout :: rat
  training :: bool

text \<open>
  \<^verbatim>\<open>for key, x in x_dict.items(): x_dict[key] = self.lins[key](x)\<close>. The loop
  rebinds keys that are present, so the dictionary keeps its size and order and every
  item is visited once with its value from before the loop.
\<close>

fun lins_loop ::
  "('t, 'g, 'w, 'a) torch \<Rightarrow> 'w RGCN \<Rightarrow> dref \<Rightarrow> (string \<times> tref) list \<Rightarrow> ('t, 'g) heap
     \<Rightarrow> error + ('t, 'g) heap" where
  "lins_loop T m d [] h = Inr h"
| "lins_loop T m d ((key, a) # items) h =
     (case map_of (lins m) key of
        None \<Rightarrow> Inl KeyError
      | Some lin \<Rightarrow>
          (let (t, h1) = alloc (linear T lin (tensors h ! a)) h
           in lins_loop T m d items (dict_set d key t h1)))"

text \<open>\<^verbatim>\<open>for key, emb in self.embs.items(): x_dict[key] = emb\<close>: the parameter itself
  is bound, not a copy of it.\<close>

fun embs_loop :: "dref \<Rightarrow> (string \<times> tref) list \<Rightarrow> ('t, 'g) heap \<Rightarrow> ('t, 'g) heap" where
  "embs_loop d [] h = h"
| "embs_loop d ((key, emb) # items) h = embs_loop d items (dict_set d key emb h)"

text \<open>
  \<^verbatim>\<open>for key, x in x_dict.items():
      x_dict[key] = F.relu_(x)
      x_dict[key] = F.dropout(x, p=self.dropout, training=self.training)\<close>.
  \<^verbatim>\<open>relu_\<close> overwrites \<open>x\<close> and returns it; \<^verbatim>\<open>dropout\<close> reads the overwritten
  \<open>x\<close>.
\<close>

fun act_loop ::
  "('t, 'g, 'w, 'a) torch \<Rightarrow> rat \<Rightarrow> bool \<Rightarrow> dref \<Rightarrow> (string \<times> tref) list
     \<Rightarrow> ('t, 'g) heap \<Rightarrow> ('t, 'g) heap" where
  "act_loop T p tr d [] h = h"
| "act_loop T p tr d ((key, a) # items) h =
     (let h1 = write_tensor a (relu T (tensors h ! a)) h;
          h2 = dict_set d key a h1
      in (case F_dropout T p tr (tensors h2 ! a) (rng h2) of
            (None, g) \<Rightarrow> act_loop T p tr d items (dict_set d key a (h2\<lparr>rng := g\<rparr>))
          | (Some t, g) \<Rightarrow>
              (let (b, h3) = alloc t (h2\<lparr>rng := g\<rparr>)
               in act_loop T p tr d items (dict_set d key b h3))))"

text \<open>\<^verbatim>\<open>for conv in self.convs[:-1]: x_dict = conv(x_dict, adj_t_dict); ...\<close>\<close>

fun convs_loop ::
  "('t, 'g, 'w, 'a) torch \<Rightarrow> rat \<Rightarrow> bool \<Rightarrow> (edge_type \<times> 'a) list \<Rightarrow> dref \<Rightarrow> 'w RGCNConv list
     \<Rightarrow> ('t, 'g) heap \<Rightarrow> error + (dref \<times> ('t, 'g) heap)" where
  "convs_loop T p tr adj_t_dict xd [] h = Inr (xd, h)"
| "convs_loop T p tr adj_t_dict xd (conv # cs) h =
     (case RGCNConv_forward T conv xd adj_t_dict h of
        Inl e \<Rightarrow> Inl e
      | Inr (d, h1) \<Rightarrow>
          convs_loop T p tr adj_t_dict d cs (act_loop T p tr d (dicts h1 ! d) h1))"

text \<open>
  \<^verbatim>\<open>RGCN.forward\<close>. \<^verbatim>\<open>copy.copy\<close> makes a new dictionary with the same
  bindings. \<^verbatim>\<open>self.convs[:-1]\<close> of an empty list is empty, and
  \<^verbatim>\<open>self.convs[-1]\<close> then raises \<^verbatim>\<open>IndexError\<close>. \<^verbatim>\<open>log_softmax\<close> returns a
  new tensor, whose reference is the result.
\<close>

definition RGCN_forward ::
  "('t, 'g, 'w, 'a) torch \<Rightarrow> 'w RGCN \<Rightarrow> dref \<Rightarrow> (edge_type \<times> 'a) list \<Rightarrow> ('t, 'g) heap
     \<Rightarrow> error + (tref \<times> ('t, 'g) heap)" where
  "RGCN_forward T m x_dict adj_t_dict h =
     (let (d1, h1) = new_dict (dicts h ! x_dict) h
      in (case lins_loop T m d1 (dicts h1 ! d1) h1 of
            Inl e \<Rightarrow> Inl e
          | Inr h2 \<Rightarrow>
              (let h3 = embs_loop d1 (embs m) h2
               in (case convs_loop T (dropout m) (training m) adj_t_dict d1 (butlast (convs m)) h3 of
                     Inl e \<Rightarrow> Inl e
                   | Inr (d, h4) \<Rightarrow>
                       (if convs m = [] then Inl IndexError
                        else (case RGCNConv_forward T (last (convs m)) d adj_t_dict h4 of
                                Inl e \<Rightarrow> Inl e
                              | Inr (od, h5) \<Rightarrow>
                                  (case map_of (dicts h5 ! od) (out_type m) of
                                     None \<Rightarrow> Inl KeyError
                                   | Some a \<Rightarrow>
                                       Inr (alloc (log_softmax T (tensors h5 ! a)) h5))))))))"

section \<open>What the layer is meant to compute\<close>

text \<open>
  \<open>dict_tensor h d k\<close> is the tensor that dictionary \<open>d\<close> holds under key \<open>k\<close> in heap
  \<open>h\<close>. A dictionary is valid when it exists and every reference in it points to an
  existing tensor; any dictionary of a running program is.
\<close>

definition dict_tensor :: "('t, 'g) heap \<Rightarrow> dref \<Rightarrow> string \<Rightarrow> 't option" where
  "dict_tensor h d k = map_option (\<lambda>a. tensors h ! a) (map_of (dicts h ! d) k)"

definition valid_dict :: "('t, 'g) heap \<Rightarrow> dref \<Rightarrow> bool" where
  "valid_dict h d \<longleftrightarrow>
     d < length (dicts h) \<and> list_all (\<lambda>(k, a). a < length (tensors h)) (dicts h ! d)"

text \<open>
  The value the description of the layer gives to node type \<open>k\<close>: the root transform
  of \<open>k\<close>'s features, to which the messages of the edge types ending in \<open>k\<close> are added
  one after the other, in the order of \<^verbatim>\<open>edge_types\<close>. A message is the relation's
  linear transform of the mean aggregation of the source type's features. The value is
  \<open>None\<close> when a key it needs is missing.
\<close>

fun sum_msgs ::
  "('t, 'g, 'w, 'a) torch \<Rightarrow> (string \<times> 'w) list \<Rightarrow> (edge_type \<times> 'a) list \<Rightarrow> (string \<Rightarrow> 't option)
     \<Rightarrow> 't \<Rightarrow> edge_type list \<Rightarrow> 't option" where
  "sum_msgs T rl adj xs acc [] = Some acc"
| "sum_msgs T rl adj xs acc (e # es) =
     (case (xs (fst e), map_of adj e, map_of rl (key_str e)) of
        (Some x, Some adj_t, Some w) \<Rightarrow>
          sum_msgs T rl adj xs (add T acc (linear T w (matmul_mean T adj_t x))) es
      | _ \<Rightarrow> None)"

definition conv_spec ::
  "('t, 'g, 'w, 'a) torch \<Rightarrow> 'w RGCNConv \<Rightarrow> (string \<Rightarrow> 't option) \<Rightarrow> (edge_type \<times> 'a) list
     \<Rightarrow> string \<Rightarrow> 't option" where
  "conv_spec T c xs adj k =
     (case (map_of (root_lins c) k, xs k) of
        (Some w, Some x) \<Rightarrow>
          sum_msgs T (rel_lins c) adj xs (linear T w x)
            (filter (\<lambda>e. snd (snd e) = k) (edge_types c))
      | _ \<Rightarrow> None)"

text \<open>The keys that \<^verbatim>\<open>RGCNConv.forward\<close> looks up are all present.\<close>

definition conv_keys_ok ::
  "'w RGCNConv \<Rightarrow> (string \<times> tref) list \<Rightarrow> (edge_type \<times> 'a) list \<Rightarrow> bool" where
  "conv_keys_ok c x_items adj \<longleftrightarrow>
     list_all (\<lambda>k. map_of (root_lins c) k \<noteq> None \<and> map_of x_items k \<noteq> None) (node_types c) \<and>
     list_all (\<lambda>e. map_of x_items (fst e) \<noteq> None \<and> map_of adj e \<noteq> None \<and>
                   map_of (rel_lins c) (key_str e) \<noteq> None \<and>
                   snd (snd e) \<in> set (node_types c)) (edge_types c)"

section \<open>Invariants of the heap\<close>

text \<open>
  \<open>preserved n m h h'\<close>: the first \<open>n\<close> tensors and the first \<open>m\<close> dictionaries are
  the same in \<open>h'\<close> as in \<open>h\<close>, and nothing was removed. \<open>fresh_items n items\<close>: all
  references in \<open>items\<close> are to tensors created after the first \<open>n\<close>.
\<close>

definition preserved :: "nat \<Rightarrow> nat \<Rightarrow> ('t, 'g) heap \<Rightarrow> ('t, 'g) heap \<Rightarrow> bool" where
  "preserved n m h h' \<longleftrightarrow>
     length (tensors h) \<le> length (tensors h') \<and> length (dicts h) \<le> length (dicts h') \<and>
     take n (tensors h') = take n (tensors h) \<and> take m (dicts h') = take m (dicts h)"

definition fresh_items :: "nat \<Rightarrow> (string \<times> tref) list \<Rightarrow> bool" where
  "fresh_items n items \<longleftrightarrow> (\<forall>a \<in> snd ` set items. n \<le> a)"

text \<open>
  The output dictionary of a convolution binds distinct keys to distinct tensors, all
  created after the first \<open>n\<close>; \<open>root_val\<close> is the content of these tensors after
  the first loop; \<open>conv_inv\<close> collects what both loops keep true.
\<close>

definition out_inv :: "nat \<Rightarrow> ('t, 'g) heap \<Rightarrow> (string \<times> tref) list \<Rightarrow> bool" where
  "out_inv n h d \<longleftrightarrow>
     distinct (map snd d) \<and> (\<forall>a \<in> snd ` set d. n \<le> a \<and> a < length (tensors h))"

definition root_val ::
  "('t, 'g, 'w, 'a) torch \<Rightarrow> 'w RGCNConv \<Rightarrow> (string \<Rightarrow> 't option) \<Rightarrow> string \<Rightarrow> 't option" where
  "root_val T c xs k =
     (case (map_of (root_lins c) k, xs k) of
        (Some w, Some x) \<Rightarrow> Some (linear T w x)
      | _ \<Rightarrow> None)"

definition conv_inv ::
  "nat \<Rightarrow> dref \<Rightarrow> dref \<Rightarrow> (string \<Rightarrow> 't option) \<Rightarrow> ('t, 'g) heap \<Rightarrow> bool" where
  "conv_inv n xd od xs h \<longleftrightarrow>
     od < length (dicts h) \<and> xd < length (dicts h) \<and> xd \<noteq> od \<and> n \<le> length (tensors h) \<and>
     (\<forall>a \<in> snd ` set (dicts h ! xd). a < n) \<and> out_inv n h (dicts h ! od) \<and>
     dict_tensor h xd = xs"

section \<open>A small graph to run the definitions on\<close>

text \<open>
  Scalars stand for tensors. A linear layer is a pair of a weight and a bias, the
  aggregation multiplies by a number, dropout doubles its argument and adds the state
  of the generator while training and hands its argument back otherwise; the generator
  counts its calls. Two node types, three edge types.
\<close>

definition ex_torch :: "(int, nat, int \<times> int, int) torch" where
  "ex_torch = \<lparr>linear = (\<lambda>(w, b) x. w * x + b), matmul_mean = (\<lambda>a x. a * x),
     add = (\<lambda>x y. x + y), relu = (\<lambda>x. max 0 x),
     F_dropout = (\<lambda>p tr x g. (if tr then Some (2 * x + int g) else None, Suc g)),
     log_softmax = (\<lambda>x. x - 1)\<rparr>"

definition ex_edge_types :: "edge_type list" where
  "ex_edge_types = [(''author'', ''writes'', ''paper''), (''paper'', ''to'', ''author''),
     (''paper'', ''cites'', ''paper'')]"

definition ex_adj :: "(edge_type \<times> int) list" where
  "ex_adj = [((''author'', ''writes'', ''paper''), 2), ((''paper'', ''to'', ''author''), 3),
     ((''paper'', ''cites'', ''paper''), 5)]"

definition ex_conv :: "(int \<times> int) RGCNConv" where
  "ex_conv = \<lparr>node_types = [''paper'', ''author''], edge_types = ex_edge_types,
     rel_lins = [(''author_writes_paper'', (7, 0)), (''paper_to_author'', (11, 0)),
                 (''paper_cites_paper'', (13, 0))],
     root_lins = [(''paper'', (1, 1)), (''author'', (2, -1))]\<rparr>"

definition ex_conv_last :: "(int \<times> int) RGCNConv" where
  "ex_conv_last = \<lparr>node_types = [''paper''],
     edge_types = [(''author'', ''writes'', ''paper''), (''paper'', ''cites'', ''paper'')],
     rel_lins = [(''author_writes_paper'', (1, 0)), (''paper_cites_paper'', (-1, 0))],
     root_lins = [(''paper'', (1, 2))]\<rparr>"

definition ex_heap :: "(int, nat) heap" where
  "ex_heap = \<lparr>tensors = [3, 5], dicts = [[(''paper'', 0), (''author'', 1)]], rng = 0\<rparr>"

definition ex_model :: "(int \<times> int) RGCN" where
  "ex_model = \<lparr>out_type = ''paper'', embs = [(''author'', 1)], lins = [(''paper'', (2, 1))],
     convs = [ex_conv, ex_conv_last], dropout = 1 / 2, training = True\<rparr>"

definition ex_heap_model :: "(int, nat) heap" where
  "ex_heap_model = \<lparr>tensors = [3, 5], dicts = [[(''paper'', 0)]], rng = 0\<rparr>"

section \<open>The graph data and its conversion\<close>

text \<open>
  \<^verbatim>\<open>SparseTensor\<close> and its methods belong to torch\_sparse: \<open>SparseTensor e sizes\<close>
  is \<^verbatim>\<open>SparseTensor(row=row, col=col, sparse_sizes=sizes)\<close> for the edge index
  \<open>e\<close> that unpacks into \<^verbatim>\<open>(row, col)\<close>, \<open>sparse_t\<close> is \<^verbatim>\<open>adj.t()\<close> and
  \<open>to_symmetric\<close> is \<^verbatim>\<open>adj.to_symmetric()\<close>.
\<close>

record ('e, 's) sparse_lib =
  SparseTensor :: "'e \<Rightarrow> int \<times> int \<Rightarrow> 's"
  sparse_t :: "'s \<Rightarrow> 's"
  to_symmetric :: "'s \<Rightarrow> 's"

text \<open>
  The heterogeneous graph \<^verbatim>\<open>data = dataset[0]\<close>, with the attributes the script
  uses. \<^verbatim>\<open>x_dict\<close> is a dictionary object on the heap, \<^verbatim>\<open>y_dict\<close> holds the
  label tensors. An attribute that the script sets to \<^verbatim>\<open>None\<close> is an \<open>option\<close>.
\<close>

record ('t, 'e, 's, 'm) data =
  x_dict :: dref
  y_dict :: "(string \<times> 't) list"
  num_nodes_dict :: "(string \<times> int) list"
  edge_index_dict :: "(edge_type \<times> 'e) list option"
  adj_t_dict :: "(edge_type \<times> 's) list"
  node_year_dict :: "'m option"
  edge_reltype_dict :: "'m option"

text \<open>
  The body of the conversion loop of \<^verbatim>\<open>main\<close>, with \<^verbatim>\<open>data.adj_t_dict\<close> as
  accumulator:
  \<^verbatim>\<open>
  for keys, (row, col) in data.edge_index_dict.items():
      sizes = (data.num_nodes_dict[keys[0]], data.num_nodes_dict[keys[2]])
      adj = SparseTensor(row=row, col=col, sparse_sizes=sizes)
      if keys[0] != keys[2]:
          data.adj_t_dict[keys] = adj.t()
          data.adj_t_dict[(keys[2], 'to', keys[0])] = adj
      else:
          data.adj_t_dict[keys] = adj.to_symmetric()
  \<close>
  The dictionary is keyed by triples here, so it is an association list over
  \<open>edge_type\<close>.
\<close>

fun convert_loop ::
  "('e, 's) sparse_lib \<Rightarrow> (string \<times> int) list \<Rightarrow> (edge_type \<times> 'e) list
     \<Rightarrow> (edge_type \<times> 's) list \<Rightarrow> error + (edge_type \<times> 's) list" where
  "convert_loop L nn [] acc = Inr acc"
| "convert_loop L nn ((keys, e) # items) acc =
     (case map_of nn (fst keys) of
        None \<Rightarrow> Inl KeyError
      | Some n0 \<Rightarrow>
          (case map_of nn (snd (snd keys)) of
             None \<Rightarrow> Inl KeyError
           | Some n2 \<Rightarrow>
               (let adj = SparseTensor L e (n0, n2)
                in if fst keys \<noteq> snd (snd keys)
                   then convert_loop L nn items
                          (AList.update (snd (snd keys), ''to'', fst keys) adj
                             (AList.update keys (sparse_t L adj) acc))
                   else convert_loop L nn items
                          (AList.update keys (to_symmetric L adj) acc))))"


text \<open>
  \<^verbatim>\<open>data.adj_t_dict = {}\<close>, the loop, \<^verbatim>\<open>data.edge_index_dict = None\<close>. Without an
  edge index dictionary \<^verbatim>\<open>.items()\<close> raises \<^verbatim>\<open>AttributeError\<close>.
\<close>

definition convert_edges ::
  "('e, 's) sparse_lib \<Rightarrow> ('t, 'e, 's, 'm) data \<Rightarrow> error + ('t, 'e, 's, 'm) data" where
  "convert_edges L data =
     (case edge_index_dict data of
        None \<Rightarrow> Inl AttributeError
      | Some items \<Rightarrow>
          (case convert_loop L (num_nodes_dict data) items [] of
             Inl e \<Rightarrow> Inl e
           | Inr adj \<Rightarrow> Inr (data\<lparr>adj_t_dict := adj, edge_index_dict := None\<rparr>)))"

text \<open>
  A concrete sparse matrix for running the conversion: the coordinates of its
  entries and its size. Transposition swaps rows and columns; the symmetric matrix
  lists every entry in both directions.
\<close>

record coo =
  rows :: "int list"
  cols :: "int list"
  sizes :: "int \<times> int"

definition ex_sparse_lib :: "(int list \<times> int list, coo) sparse_lib" where
  "ex_sparse_lib = \<lparr>
     SparseTensor = (\<lambda>(row, col) sz. \<lparr>rows = row, cols = col, sizes = sz\<rparr>),
     sparse_t = (\<lambda>a. \<lparr>rows = cols a, cols = rows a, sizes = (snd (sizes a), fst (sizes a))\<rparr>),
     to_symmetric = (\<lambda>a. \<lparr>rows = rows a @ cols a, cols = cols a @ rows a,
        sizes = (max (fst (sizes a)) (snd (sizes a)), max (fst (sizes a)) (snd (sizes a)))\<rparr>)\<rparr>"

definition ex_num_nodes :: "(string \<times> int) list" where
  "ex_num_nodes = [(''author'', 2), (''paper'', 2)]"


definition ex_edge_index :: "(edge_type \<times> int list \<times> int list) list" where
  "ex_edge_index = [((''author'', ''writes'', ''paper''), ([0, 1], [1, 1])),
                    ((''paper'', ''cites'', ''paper''), ([0], [1]))]"


definition ex_data :: "(int, int list \<times> int list, coo, unit) data" where
  "ex_data = \<lparr>x_dict = 0, y_dict = [(''paper'', 1)], num_nodes_dict = ex_num_nodes,
     edge_index_dict = Some ex_edge_index, adj_t_dict = [],
     node_year_dict = None, edge_reltype_dict = None\<rparr>"

section \<open>Linear layers and the rest of the library\<close>

text \<open>
  A \<^verbatim>\<open>torch.nn.Linear\<close> module: its sizes and its two parameters; the bias is
  \<open>None\<close> for \<^verbatim>\<open>bias=False\<close>.
\<close>

record 't Linear =
  in_features :: int
  out_features :: int
  weight :: 't
  bias :: "'t option"

text \<open>
  The parameters of a model, as \<^verbatim>\<open>model.named_parameters()\<close> tells them apart: an
  embedding, the weight or bias of an input layer, and the weight or bias of a relation
  or root layer of the convolution with a given index.
\<close>

datatype pname =
  PEmb string | PLin string bool | PRel nat string bool | PRoot nat string bool

text \<open>
  What the script calls in torch and ogb, as parameters of the model.
  \<open>kernels\<close> are the operations of the forward pass. \<open>empty_tensor shape\<close> is an
  uninitialised tensor. The initialisers read the shape of what they fill and the
  generator: \<open>xavier_uniform\<close> is \<^verbatim>\<open>torch.nn.init.xavier_uniform_\<close>,
  \<open>kaiming_uniform i o\<close> and \<open>bias_uniform i o\<close> are the two draws of
  \<^verbatim>\<open>Linear.reset_parameters\<close> for a layer from \<open>i\<close> to \<open>o\<close> features.
  \<open>tensor_index x idx\<close> is \<^verbatim>\<open>x[idx]\<close>, \<open>tensor_item\<close> is \<^verbatim>\<open>.item()\<close>,
  \<open>argmax\<close> is \<^verbatim>\<open>.argmax(dim=-1, keepdim=True)\<close>, \<open>size_last\<close> is
  \<^verbatim>\<open>.size(-1)\<close>. \<open>backward loss gr\<close> are the gradients after
  \<^verbatim>\<open>loss.backward()\<close> when they were \<open>gr\<close> before (\<open>None\<close> after
  \<^verbatim>\<open>zero_grad\<close>); a tensor carries the history that autograd needs.
  \<open>adam_empty\<close> is the state of a new \<^verbatim>\<open>Adam\<close>, and \<open>adam_step lr st gr\<close> gives
  the new value of every parameter from its old one, and the new state.
  \<open>evaluator_eval y_true y_pred\<close> is the dictionary that \<^verbatim>\<open>Evaluator.eval\<close> returns.
  Moving a tensor to a device (\<^verbatim>\<open>.to(device)\<close>, \<^verbatim>\<open>.cpu()\<close>) keeps its value and is
  not modelled.
\<close>

record ('t, 'g, 's, 'o, 'gr, 'f) lib =
  kernels :: "('t, 'g, 't Linear, 's) torch"
  empty_tensor :: "int list \<Rightarrow> 't"
  tensor_shape :: "'t \<Rightarrow> int list"
  xavier_uniform :: "int list \<Rightarrow> 'g \<Rightarrow> 't \<times> 'g"
  kaiming_uniform :: "int \<Rightarrow> int \<Rightarrow> 'g \<Rightarrow> 't \<times> 'g"
  bias_uniform :: "int \<Rightarrow> int \<Rightarrow> 'g \<Rightarrow> 't \<times> 'g"
  tensor_index :: "'t \<Rightarrow> 't \<Rightarrow> 't"
  squeeze :: "'t \<Rightarrow> 't"
  nll_loss :: "'t \<Rightarrow> 't \<Rightarrow> 't"
  tensor_item :: "'t \<Rightarrow> 'f"
  argmax :: "'t \<Rightarrow> 't"
  size_last :: "'t \<Rightarrow> int"
  backward :: "'t \<Rightarrow> 'gr option \<Rightarrow> 'gr"
  adam_empty :: 'o
  adam_step :: "rat \<Rightarrow> 'o \<Rightarrow> 'gr option \<Rightarrow> (pname \<Rightarrow> 't \<Rightarrow> 't) \<times> 'o"
  evaluator_eval :: "'t \<Rightarrow> 't \<Rightarrow> (string \<times> 'f) list"
  cuda_is_available :: bool

text \<open>
  \<^verbatim>\<open>Linear.reset_parameters\<close> draws the weight, and the bias if there is one;
  \<^verbatim>\<open>Linear(i, o, bias=b)\<close> creates the parameters and resets them.
\<close>

definition Linear_reset_parameters ::
  "('t, 'g, 's, 'o, 'gr, 'f) lib \<Rightarrow> 't Linear \<Rightarrow> 'g \<Rightarrow> 't Linear \<times> 'g" where
  "Linear_reset_parameters L l g =
     (let (w, g1) = kaiming_uniform L (in_features l) (out_features l) g
      in (case bias l of
            None \<Rightarrow> (l\<lparr>weight := w\<rparr>, g1)
          | Some _ \<Rightarrow>
              (let (b, g2) = bias_uniform L (in_features l) (out_features l) g1
               in (l\<lparr>weight := w, bias := Some b\<rparr>, g2))))"

definition Linear_init ::
  "('t, 'g, 's, 'o, 'gr, 'f) lib \<Rightarrow> int \<Rightarrow> int \<Rightarrow> bool \<Rightarrow> 'g \<Rightarrow> 't Linear \<times> 'g" where
  "Linear_init L n_in n_out b g =
     Linear_reset_parameters L
       \<lparr>in_features = n_in, out_features = n_out, weight = empty_tensor L [n_out, n_in],
        bias = (if b then Some (empty_tensor L [n_out]) else None)\<rparr> g"

text \<open>
  A dictionary comprehension \<^verbatim>\<open>{key: Linear(i, o, bias=b) for key in keys}\<close>: one
  new layer per key, in order; a key that comes twice keeps its place and the later
  layer.
\<close>

fun make_lins ::
  "('t, 'g, 's, 'o, 'gr, 'f) lib \<Rightarrow> int \<Rightarrow> int \<Rightarrow> bool \<Rightarrow> string list
     \<Rightarrow> (string \<times> 't Linear) list \<Rightarrow> 'g \<Rightarrow> (string \<times> 't Linear) list \<times> 'g" where
  "make_lins L n_in n_out b [] acc g = (acc, g)"
| "make_lins L n_in n_out b (key # keys) acc g =
     (let (l, g1) = Linear_init L n_in n_out b g
      in make_lins L n_in n_out b keys (AList.update key l acc) g1)"

text \<open>\<^verbatim>\<open>for lin in lins.values(): lin.reset_parameters()\<close>\<close>

fun reset_lins ::
  "('t, 'g, 's, 'o, 'gr, 'f) lib \<Rightarrow> (string \<times> 't Linear) list \<Rightarrow> 'g
     \<Rightarrow> (string \<times> 't Linear) list \<times> 'g" where
  "reset_lins L [] g = ([], g)"
| "reset_lins L ((key, l) # ls) g =
     (let (l', g1) = Linear_reset_parameters L l g;
          (ls', g2) = reset_lins L ls g1
      in ((key, l') # ls', g2))"

text \<open>\<^verbatim>\<open>RGCNConv.reset_parameters\<close> and \<^verbatim>\<open>RGCNConv.__init__\<close>\<close>

definition RGCNConv_reset_parameters ::
  "('t, 'g, 's, 'o, 'gr, 'f) lib \<Rightarrow> 't Linear RGCNConv \<Rightarrow> 'g \<Rightarrow> 't Linear RGCNConv \<times> 'g" where
  "RGCNConv_reset_parameters L c g =
     (let (rl, g1) = reset_lins L (rel_lins c) g;
          (ro, g2) = reset_lins L (root_lins c) g1
      in (c\<lparr>rel_lins := rl, root_lins := ro\<rparr>, g2))"

definition RGCNConv_init ::
  "('t, 'g, 's, 'o, 'gr, 'f) lib \<Rightarrow> int \<Rightarrow> int \<Rightarrow> string list \<Rightarrow> edge_type list \<Rightarrow> 'g
     \<Rightarrow> 't Linear RGCNConv \<times> 'g" where
  "RGCNConv_init L in_channels out_channels nts ets g =
     (let (rl, g1) = make_lins L in_channels out_channels False (map key_str ets) [] g;
          (ro, g2) = make_lins L in_channels out_channels True nts [] g1
      in RGCNConv_reset_parameters L
           \<lparr>node_types = nts, edge_types = ets, rel_lins = rl, root_lins = ro\<rparr> g2)"

text \<open>
  \<^verbatim>\<open>RGCN.reset_parameters\<close>: the embeddings are overwritten in place on the heap,
  then the input layers and the convolutions are reset, all from the one generator.
\<close>

fun reset_embs ::
  "('t, 'g, 's, 'o, 'gr, 'f) lib \<Rightarrow> (string \<times> tref) list \<Rightarrow> ('t, 'g) heap \<Rightarrow> ('t, 'g) heap" where
  "reset_embs L [] h = h"
| "reset_embs L ((key, emb) # es) h =
     (let (t, g1) = xavier_uniform L (tensor_shape L (tensors h ! emb)) (rng h)
      in reset_embs L es (write_tensor emb t (h\<lparr>rng := g1\<rparr>)))"

fun reset_convs ::
  "('t, 'g, 's, 'o, 'gr, 'f) lib \<Rightarrow> 't Linear RGCNConv list \<Rightarrow> 'g
     \<Rightarrow> 't Linear RGCNConv list \<times> 'g" where
  "reset_convs L [] g = ([], g)"
| "reset_convs L (conv # cs) g =
     (let (conv', g1) = RGCNConv_reset_parameters L conv g;
          (cs', g2) = reset_convs L cs g1
      in (conv' # cs', g2))"

definition RGCN_reset_parameters ::
  "('t, 'g, 's, 'o, 'gr, 'f) lib \<Rightarrow> 't Linear RGCN \<Rightarrow> ('t, 'g) heap
     \<Rightarrow> 't Linear RGCN \<times> ('t, 'g) heap" where
  "RGCN_reset_parameters L m h =
     (let h1 = reset_embs L (embs m) h;
          (ls, g1) = reset_lins L (lins m) (rng h1);
          (cs, g2) = reset_convs L (convs m) g1
      in (m\<lparr>lins := ls, convs := cs\<rparr>, h1\<lparr>rng := g2\<rparr>))"

text \<open>
  \<^verbatim>\<open>RGCN.__init__\<close>. The embeddings are made for the node types without features,
  \<^verbatim>\<open>set(node_types).difference(set(x_types))\<close>; a Python set has no fixed order, the
  order of \<^verbatim>\<open>num_nodes_dict\<close> is taken here. \<^verbatim>\<open>range(num_layers - 1)\<close> is empty
  when \<^verbatim>\<open>num_layers\<close> is below 2. The last convolution keeps the edge types that end
  in \<^verbatim>\<open>out_type\<close>. A new module is in training mode.
\<close>

fun make_embs ::
  "('t, 'g, 's, 'o, 'gr, 'f) lib \<Rightarrow> int \<Rightarrow> (string \<times> int) list \<Rightarrow> (string \<times> tref) list
     \<Rightarrow> ('t, 'g) heap \<Rightarrow> (string \<times> tref) list \<times> ('t, 'g) heap" where
  "make_embs L hidden_channels [] acc h = (acc, h)"
| "make_embs L hidden_channels ((key, n) # items) acc h =
     (let (a, h1) = alloc (empty_tensor L [n, hidden_channels]) h
      in make_embs L hidden_channels items (AList.update key a acc) h1)"

fun make_convs ::
  "('t, 'g, 's, 'o, 'gr, 'f) lib \<Rightarrow> int \<Rightarrow> string list \<Rightarrow> edge_type list \<Rightarrow> nat \<Rightarrow> 'g
     \<Rightarrow> 't Linear RGCNConv list \<times> 'g" where
  "make_convs L hidden_channels nts ets 0 g = ([], g)"
| "make_convs L hidden_channels nts ets (Suc n) g =
     (let (conv, g1) = RGCNConv_init L hidden_channels hidden_channels nts ets g;
          (cs, g2) = make_convs L hidden_channels nts ets n g1
      in (conv # cs, g2))"

definition RGCN_init ::
  "('t, 'g, 's, 'o, 'gr, 'f) lib \<Rightarrow> int \<Rightarrow> int \<Rightarrow> int \<Rightarrow> int \<Rightarrow> rat \<Rightarrow> (string \<times> int) list
     \<Rightarrow> string list \<Rightarrow> edge_type list \<Rightarrow> string \<Rightarrow> ('t, 'g) heap
     \<Rightarrow> 't Linear RGCN \<times> ('t, 'g) heap" where
  "RGCN_init L in_channels hidden_channels out_channels n_layers p nn x_types ets otype h =
     (let nts = map fst nn;
          (em, h1) = make_embs L hidden_channels
                       (filter (\<lambda>(key, n). key \<notin> set x_types) nn) [] h;
          (ls, g1) = make_lins L in_channels hidden_channels True x_types [] (rng h1);
          (cs, g2) = make_convs L hidden_channels nts ets (nat (n_layers - 1)) g1;
          ets' = filter (\<lambda>keys. snd (snd keys) = otype) ets;
          (cl, g3) = RGCNConv_init L hidden_channels out_channels [otype] ets' g2
      in RGCN_reset_parameters L
           \<lparr>out_type = otype, embs = em, lins = ls, convs = cs @ [cl], dropout = p,
            training = True\<rparr>
           (h1\<lparr>rng := g3\<rparr>))"

text \<open>
  An optimizer step gives every parameter of the model its new value: the embeddings
  on the heap, the weights and biases in their layers.
\<close>

definition update_Linear :: "(bool \<Rightarrow> 't \<Rightarrow> 't) \<Rightarrow> 't Linear \<Rightarrow> 't Linear" where
  "update_Linear f l = l\<lparr>weight := f False (weight l), bias := map_option (f True) (bias l)\<rparr>"

definition update_conv ::
  "(pname \<Rightarrow> 't \<Rightarrow> 't) \<Rightarrow> nat \<times> 't Linear RGCNConv \<Rightarrow> 't Linear RGCNConv" where
  "update_conv f ic =
     (snd ic)\<lparr>rel_lins := map (\<lambda>(key, l). (key, update_Linear (\<lambda>b. f (PRel (fst ic) key b)) l))
                           (rel_lins (snd ic)),
              root_lins := map (\<lambda>(key, l). (key, update_Linear (\<lambda>b. f (PRoot (fst ic) key b)) l))
                            (root_lins (snd ic))\<rparr>"

fun update_embs ::
  "(pname \<Rightarrow> 't \<Rightarrow> 't) \<Rightarrow> (string \<times> tref) list \<Rightarrow> ('t, 'g) heap \<Rightarrow> ('t, 'g) heap" where
  "update_embs f [] h = h"
| "update_embs f ((key, emb) # es) h =
     update_embs f es (write_tensor emb (f (PEmb key) (tensors h ! emb)) h)"

definition update_parameters ::
  "(pname \<Rightarrow> 't \<Rightarrow> 't) \<Rightarrow> 't Linear RGCN \<Rightarrow> ('t, 'g) heap
     \<Rightarrow> 't Linear RGCN \<times> ('t, 'g) heap" where
  "update_parameters f m h =
     (m\<lparr>lins := map (\<lambda>(key, l). (key, update_Linear (\<lambda>b. f (PLin key b)) l)) (lins m),
        convs := map (update_conv f) (enumerate 0 (convs m))\<rparr>,
      update_embs f (embs m) h)"

section \<open>Command line, console and logger\<close>

text \<open>
  The namespace that \<^verbatim>\<open>parser.parse_args()\<close> returns: one attribute per
  \<^verbatim>\<open>add_argument\<close>, here \<open>args_device\<close> for \<^verbatim>\<open>args.device\<close> and so on.
  \<open>default_args\<close> holds the defaults of the nine declarations.
\<close>

record args =
  args_device :: int
  args_log_steps :: int
  args_use_sage :: bool
  args_num_layers :: int
  args_hidden_channels :: int
  args_dropout :: rat
  args_lr :: rat
  args_epochs :: int
  args_runs :: int

definition default_args :: args where
  "default_args = \<lparr>args_device = 0, args_log_steps = 1, args_use_sage = False,
     args_num_layers = 3, args_hidden_channels = 256, args_dropout = 1 / 2,
     args_lr = 1 / 100, args_epochs = 300, args_runs = 10\<rparr>"

text \<open>
  Command lines made of the declared long options written in full, each option with a
  value followed by one word that does not start with a dash. \<open>py_int\<close> and
  \<open>py_float\<close> are Python's \<^verbatim>\<open>int\<close> and \<^verbatim>\<open>float\<close> on a word, \<open>None\<close> when they
  raise \<^verbatim>\<open>ValueError\<close>, on which argparse exits. The result is \<open>None\<close> for a
  command line of another form (abbreviated options, \<^verbatim>\<open>--opt=value\<close>, negative
  numbers, \<^verbatim>\<open>--help\<close>, positional words), which this model does not describe.
\<close>

fun parse_loop ::
  "(string \<Rightarrow> int option) \<Rightarrow> (string \<Rightarrow> rat option) \<Rightarrow> string list \<Rightarrow> args
     \<Rightarrow> (error + args) option" where
  "parse_loop py_int py_float [] a = Some (Inr a)"
| "parse_loop py_int py_float [tok] a =
     (if tok = ''--use_sage'' then Some (Inr (a\<lparr>args_use_sage := True\<rparr>)) else None)"
| "parse_loop py_int py_float (tok # v # rest) a =
     (if tok = ''--use_sage''
      then parse_loop py_int py_float (v # rest) (a\<lparr>args_use_sage := True\<rparr>)
      else if take 1 v = ''-'' then None
      else if tok = ''--device'' then
        (case py_int v of None \<Rightarrow> Some (Inl SystemExit)
         | Some n \<Rightarrow> parse_loop py_int py_float rest (a\<lparr>args_device := n\<rparr>))
      else if tok = ''--log_steps'' then
        (case py_int v of None \<Rightarrow> Some (Inl SystemExit)
         | Some n \<Rightarrow> parse_loop py_int py_float rest (a\<lparr>args_log_steps := n\<rparr>))
      else if tok = ''--num_layers'' then
        (case py_int v of None \<Rightarrow> Some (Inl SystemExit)
         | Some n \<Rightarrow> parse_loop py_int py_float rest (a\<lparr>args_num_layers := n\<rparr>))
      else if tok = ''--hidden_channels'' then
        (case py_int v of None \<Rightarrow> Some (Inl SystemExit)
         | Some n \<Rightarrow> parse_loop py_int py_float rest (a\<lparr>args_hidden_channels := n\<rparr>))
      else if tok = ''--dropout'' then
        (case py_float v of None \<Rightarrow> Some (Inl SystemExit)
         | Some x \<Rightarrow> parse_loop py_int py_float rest (a\<lparr>args_dropout := x\<rparr>))
      else if tok = ''--lr'' then
        (case py_float v of None \<Rightarrow> Some (Inl SystemExit)
         | Some x \<Rightarrow> parse_loop py_int py_float rest (a\<lparr>args_lr := x\<rparr>))
      else if tok = ''--epochs'' then
        (case py_int v of None \<Rightarrow> Some (Inl SystemExit)
         | Some n \<Rightarrow> parse_loop py_int py_float rest (a\<lparr>args_epochs := n\<rparr>))
      else if tok = ''--runs'' then
        (case py_int v of None \<Rightarrow> Some (Inl SystemExit)
         | Some n \<Rightarrow> parse_loop py_int py_float rest (a\<lparr>args_runs := n\<rparr>))
      else None)"

definition parse_args ::
  "(string \<Rightarrow> int option) \<Rightarrow> (string \<Rightarrow> rat option) \<Rightarrow> string list \<Rightarrow> (error + args) option" where
  "parse_args py_int py_float argv = parse_loop py_int py_float argv default_args"

text \<open>
  What the script prints and which calls it makes, in order. A printed line is
  recorded with the values it shows, not with their formatting: \<open>PrintEpoch\<close> holds
  \<^verbatim>\<open>run + 1\<close>, the epoch, the loss and the three accuracies. \<open>CallForward\<close> records
  the training flag of the model and whether gradients are tracked, \<open>CallItem\<close> the
  value of \<^verbatim>\<open>loss.item()\<close>.
\<close>

datatype device = Cuda int | Cpu

datatype 'f event =
    PrintArgs args
  | PrintData
  | ToDevice device
  | CallReset
  | CallAdam rat
  | CallTrainMode
  | CallZeroGrad
  | CallForward bool bool
  | CallNllLoss
  | CallBackward
  | CallStep
  | CallItem 'f
  | CallEvalMode
  | CallEvaluate string
  | CallAddResult int
  | PrintEpoch int int 'f 'f 'f 'f
  | PrintStatistics "int option" "('f \<times> 'f \<times> 'f) list list"

text \<open>
  Modelled from the spec: the class \<^verbatim>\<open>Logger\<close> of \<^verbatim>\<open>logger.py\<close>, which the script
  imports and which is not among the sources. The spec says that aggregated run
  statistics are printed. The logger keeps what it is constructed with and one list of
  results per run; \<^verbatim>\<open>add_result\<close> appends to the list of its run;
  \<^verbatim>\<open>print_statistics(run)\<close> prints from the results of that run and
  \<^verbatim>\<open>print_statistics()\<close> from those of all runs.
\<close>

record 'f Logger =
  info :: args
  results :: "('f \<times> 'f \<times> 'f) list list"

definition Logger_init :: "int \<Rightarrow> args \<Rightarrow> 'f Logger" where
  "Logger_init n_runs a = \<lparr>info = a, results = replicate (nat n_runs) []\<rparr>"

definition add_result :: "'f Logger \<Rightarrow> int \<Rightarrow> 'f \<times> 'f \<times> 'f \<Rightarrow> error + 'f Logger" where
  "add_result lg run result =
     (if 0 \<le> run \<and> run < int (length (results lg))
      then Inr (lg\<lparr>results := (results lg)[nat run := results lg ! nat run @ [result]]\<rparr>)
      else Inl IndexError)"

definition print_statistics :: "'f Logger \<Rightarrow> int option \<Rightarrow> error + 'f event" where
  "print_statistics lg r =
     (case r of
        None \<Rightarrow> Inr (PrintStatistics None (results lg))
      | Some run \<Rightarrow>
          (if 0 \<le> run \<and> run < int (length (results lg))
           then Inr (PrintStatistics (Some run) [results lg ! nat run])
           else Inl IndexError))"

section \<open>train and test\<close>

text \<open>
  The state of the running script: the heap, the model, the gradients stored with the
  parameters (\<open>None\<close> when cleared), whether autograd is recording, the logger, and
  the events so far. An error comes with the state in which it was raised.
\<close>

record ('t, 'g, 'gr, 'f) world =
  mem :: "('t, 'g) heap"
  model :: "'t Linear RGCN"
  grads :: "'gr option"
  grad_enabled :: bool
  logger :: "'f Logger"
  events :: "'f event list"

record 'o Adam =
  adam_lr :: rat
  adam_state :: 'o

definition emit :: "'f event \<Rightarrow> ('t, 'g, 'gr, 'f) world \<Rightarrow> ('t, 'g, 'gr, 'f) world" where
  "emit e w = w\<lparr>events := events w @ [e]\<rparr>"

text \<open>
  \<^verbatim>\<open>
  def train(model, x_dict, adj_t_dict, y_true, train_idx, optimizer):
      model.train()
      optimizer.zero_grad()
      out = model(x_dict, adj_t_dict)
      loss = F.nll_loss(out[train_idx], y_true[train_idx].squeeze())
      loss.backward()
      optimizer.step()
      return loss.item()
  \<close>
  The optimizer is returned with its new state.
\<close>

definition train ::
  "('t, 'g, 's, 'o, 'gr, 'f) lib \<Rightarrow> dref \<Rightarrow> (edge_type \<times> 's) list \<Rightarrow> 't \<Rightarrow> 't \<Rightarrow> 'o Adam
     \<Rightarrow> ('t, 'g, 'gr, 'f) world
     \<Rightarrow> error \<times> ('t, 'g, 'gr, 'f) world + ('f \<times> 'o Adam) \<times> ('t, 'g, 'gr, 'f) world" where
  "train L xd adj y_true train_idx optimizer w =
     (let w1 = emit CallTrainMode (w\<lparr>model := (model w)\<lparr>training := True\<rparr>\<rparr>);
          w2 = emit CallZeroGrad (w1\<lparr>grads := None\<rparr>);
          w3 = emit (CallForward (training (model w2)) (grad_enabled w2)) w2
      in (case RGCN_forward (kernels L) (model w3) xd adj (mem w3) of
            Inl e \<Rightarrow> Inl (e, w3)
          | Inr (r, h) \<Rightarrow>
              (let out = tensors h ! r;
                   loss = nll_loss L (tensor_index L out train_idx)
                            (squeeze L (tensor_index L y_true train_idx));
                   w4 = emit CallNllLoss (w3\<lparr>mem := h\<rparr>);
                   w5 = emit CallBackward (w4\<lparr>grads := Some (backward L loss (grads w4))\<rparr>);
                   (f, st) = adam_step L (adam_lr optimizer) (adam_state optimizer) (grads w5);
                   (m, h') = update_parameters f (model w5) (mem w5);
                   w6 = emit CallStep (w5\<lparr>model := m, mem := h'\<rparr>);
                   w7 = emit (CallItem (tensor_item L loss)) w6
               in Inr ((tensor_item L loss, optimizer\<lparr>adam_state := st\<rparr>), w7))))"

text \<open>
  One accuracy of \<^verbatim>\<open>test\<close>:
  \<^verbatim>\<open>evaluator.eval({'y_true': y_true[split_idx[name]['paper']],
                   'y_pred': y_pred[split_idx[name]['paper']]})['acc']\<close>
\<close>

definition split_acc ::
  "('t, 'g, 's, 'o, 'gr, 'f) lib \<Rightarrow> (string \<times> (string \<times> 't) list) list \<Rightarrow> 't \<Rightarrow> 't \<Rightarrow> string
     \<Rightarrow> error + 'f" where
  "split_acc L split_idx y_true y_pred name =
     (case map_of split_idx name of
        None \<Rightarrow> Inl KeyError
      | Some d \<Rightarrow>
          (case map_of d ''paper'' of
             None \<Rightarrow> Inl KeyError
           | Some idx \<Rightarrow>
               (case map_of (evaluator_eval L (tensor_index L y_true idx)
                               (tensor_index L y_pred idx)) ''acc'' of
                  None \<Rightarrow> Inl KeyError
                | Some acc \<Rightarrow> Inr acc)))"

text \<open>
  The body of \<^verbatim>\<open>test\<close>:
  \<^verbatim>\<open>
      model.eval()
      out = model(x_dict, adj_t_dict).cpu()
      y_pred = out.argmax(dim=-1, keepdim=True).cpu()
      y_true = y_true.cpu()
      train_acc = ...; valid_acc = ...; test_acc = ...
      return train_acc, valid_acc, test_acc
  \<close>
\<close>

definition test_body ::
  "('t, 'g, 's, 'o, 'gr, 'f) lib \<Rightarrow> dref \<Rightarrow> (edge_type \<times> 's) list \<Rightarrow> 't
     \<Rightarrow> (string \<times> (string \<times> 't) list) list \<Rightarrow> ('t, 'g, 'gr, 'f) world
     \<Rightarrow> error \<times> ('t, 'g, 'gr, 'f) world + ('f \<times> 'f \<times> 'f) \<times> ('t, 'g, 'gr, 'f) world" where
  "test_body L xd adj y_true split_idx w =
     (let w1 = emit CallEvalMode (w\<lparr>model := (model w)\<lparr>training := False\<rparr>\<rparr>);
          w2 = emit (CallForward (training (model w1)) (grad_enabled w1)) w1
      in (case RGCN_forward (kernels L) (model w2) xd adj (mem w2) of
            Inl e \<Rightarrow> Inl (e, w2)
          | Inr (r, h) \<Rightarrow>
              (let out = tensors h ! r;
                   y_pred = argmax L out;
                   w3 = w2\<lparr>mem := h\<rparr>
               in (case split_acc L split_idx y_true y_pred ''train'' of
                     Inl e \<Rightarrow> Inl (e, w3)
                   | Inr train_acc \<Rightarrow>
                       (let w4 = emit (CallEvaluate ''train'') w3
                        in (case split_acc L split_idx y_true y_pred ''valid'' of
                              Inl e \<Rightarrow> Inl (e, w4)
                            | Inr valid_acc \<Rightarrow>
                                (let w5 = emit (CallEvaluate ''valid'') w4
                                 in (case split_acc L split_idx y_true y_pred ''test'' of
                                       Inl e \<Rightarrow> Inl (e, w5)
                                     | Inr test_acc \<Rightarrow>
                                         Inr ((train_acc, valid_acc, test_acc),
                                              emit (CallEvaluate ''test'') w5)))))))))"

text \<open>
  \<^verbatim>\<open>@torch.no_grad()\<close>: gradient tracking is off inside the call and is put back to
  what it was when the call ends, by return or by exception.
\<close>

definition test ::
  "('t, 'g, 's, 'o, 'gr, 'f) lib \<Rightarrow> dref \<Rightarrow> (edge_type \<times> 's) list \<Rightarrow> 't
     \<Rightarrow> (string \<times> (string \<times> 't) list) list \<Rightarrow> ('t, 'g, 'gr, 'f) world
     \<Rightarrow> error \<times> ('t, 'g, 'gr, 'f) world + ('f \<times> 'f \<times> 'f) \<times> ('t, 'g, 'gr, 'f) world" where
  "test L xd adj y_true split_idx w =
     (case test_body L xd adj y_true split_idx (w\<lparr>grad_enabled := False\<rparr>) of
        Inl (e, w') \<Rightarrow> Inl (e, w'\<lparr>grad_enabled := grad_enabled w\<rparr>)
      | Inr (result, w') \<Rightarrow> Inr (result, w'\<lparr>grad_enabled := grad_enabled w\<rparr>))"

section \<open>main\<close>

text \<open>
  What \<^verbatim>\<open>PygNodePropPredDataset(name='ogbn-mag')\<close> provides: the heap with the
  tensors and the feature dictionary of the graph (and the state of the generator at
  the start), the graph \<^verbatim>\<open>dataset[0]\<close>, \<^verbatim>\<open>dataset.get_idx_split()\<close> and
  \<^verbatim>\<open>dataset.num_classes\<close>.
\<close>

record ('t, 'g, 'e, 's, 'm) dataset =
  ds_heap :: "('t, 'g) heap"
  ds_data :: "('t, 'e, 's, 'm) data"
  ds_split_idx :: "(string \<times> (string \<times> 't) list) list"
  ds_num_classes :: int

text \<open>
  The loop over the epochs of one run, \<^verbatim>\<open>for epoch in range(1, 1 + args.epochs)\<close>,
  over the list of its epochs:
  \<^verbatim>\<open>
      loss = train(model, data.x_dict, data.adj_t_dict, data.y_dict['paper'],
                   train_idx, optimizer)
      result = test(model, data.x_dict, data.adj_t_dict, data.y_dict['paper'],
                    split_idx, evaluator)
      logger.add_result(run, result)
      if epoch % args.log_steps == 0:
          train_acc, valid_acc, test_acc = result
          print(f'Run: {run + 1:02d}, Epoch: {epoch:02d}, Loss: {loss:.4f}, ...')
  \<close>
  \<^verbatim>\<open>epoch % 0\<close> raises \<^verbatim>\<open>ZeroDivisionError\<close>; Python's \<^verbatim>\<open>%\<close> on integers is
  \<open>mod\<close> on \<open>int\<close>.
\<close>

fun epochs_loop ::
  "('t, 'g, 's, 'o, 'gr, 'f) lib \<Rightarrow> args \<Rightarrow> ('t, 'e, 's, 'm) data
     \<Rightarrow> (string \<times> (string \<times> 't) list) list \<Rightarrow> 't \<Rightarrow> int \<Rightarrow> 'o Adam \<Rightarrow> int list
     \<Rightarrow> ('t, 'g, 'gr, 'f) world \<Rightarrow> error \<times> ('t, 'g, 'gr, 'f) world + ('t, 'g, 'gr, 'f) world" where
  "epochs_loop L a data split_idx train_idx run optimizer [] w = Inr w"
| "epochs_loop L a data split_idx train_idx run optimizer (epoch # es) w =
     (case map_of (y_dict data) ''paper'' of
        None \<Rightarrow> Inl (KeyError, w)
      | Some y_true \<Rightarrow>
          (case train L (x_dict data) (adj_t_dict data) y_true train_idx optimizer w of
             Inl ew \<Rightarrow> Inl ew
           | Inr ((loss, optimizer'), w1) \<Rightarrow>
               (case test L (x_dict data) (adj_t_dict data) y_true split_idx w1 of
                  Inl ew \<Rightarrow> Inl ew
                | Inr ((train_acc, valid_acc, test_acc), w2) \<Rightarrow>
                    (case add_result (logger w2) run (train_acc, valid_acc, test_acc) of
                       Inl e \<Rightarrow> Inl (e, w2)
                     | Inr lg \<Rightarrow>
                         (let w3 = emit (CallAddResult run) (w2\<lparr>logger := lg\<rparr>)
                          in if args_log_steps a = 0 then Inl (ZeroDivisionError, w3)
                             else epochs_loop L a data split_idx train_idx run optimizer' es
                                    (if epoch mod args_log_steps a = 0
                                     then emit (PrintEpoch (run + 1) epoch loss
                                                  train_acc valid_acc test_acc) w3
                                     else w3))))))"

text \<open>
  The loop over the runs, \<^verbatim>\<open>for run in range(args.runs)\<close>:
  \<^verbatim>\<open>
      model.reset_parameters()
      optimizer = torch.optim.Adam(model.parameters(), lr=args.lr)
      for epoch in range(1, 1 + args.epochs): ...
      logger.print_statistics(run)
  \<close>
\<close>

fun runs_loop ::
  "('t, 'g, 's, 'o, 'gr, 'f) lib \<Rightarrow> args \<Rightarrow> ('t, 'e, 's, 'm) data
     \<Rightarrow> (string \<times> (string \<times> 't) list) list \<Rightarrow> 't \<Rightarrow> int list
     \<Rightarrow> ('t, 'g, 'gr, 'f) world \<Rightarrow> error \<times> ('t, 'g, 'gr, 'f) world + ('t, 'g, 'gr, 'f) world" where
  "runs_loop L a data split_idx train_idx [] w = Inr w"
| "runs_loop L a data split_idx train_idx (run # rs) w =
     (let (m, h) = RGCN_reset_parameters L (model w) (mem w);
          w1 = emit CallReset (w\<lparr>model := m, mem := h\<rparr>);
          optimizer = \<lparr>adam_lr = args_lr a, adam_state = adam_empty L\<rparr>;
          w2 = emit (CallAdam (args_lr a)) w1
      in (case epochs_loop L a data split_idx train_idx run optimizer [1..args_epochs a] w2 of
            Inl ew \<Rightarrow> Inl ew
          | Inr w3 \<Rightarrow>
              (case print_statistics (logger w3) (Some run) of
                 Inl e \<Rightarrow> Inl (e, w3)
               | Inr line \<Rightarrow> runs_loop L a data split_idx train_idx rs (emit line w3))))"

text \<open>
  \<^verbatim>\<open>main\<close>, from the parsed arguments on. An error before the model exists comes
  with the events so far. The result of a run to the end is the final state, whose
  events are everything the script printed and called.
\<close>

definition main ::
  "('t, 'g, 's, 'o, 'gr, 'f) lib \<Rightarrow> ('e, 's) sparse_lib \<Rightarrow> ('t, 'g, 'e, 's, 'm) dataset \<Rightarrow> args
     \<Rightarrow> error \<times> 'f event list + ('t, 'g, 'gr, 'f) world" where
  "main L S dataset a =
     (let ev0 = [PrintArgs a];
          device = (if cuda_is_available L then Cuda (args_device a) else Cpu);
          split_idx = ds_split_idx dataset;
          data0 = (ds_data dataset)\<lparr>node_year_dict := None, edge_reltype_dict := None\<rparr>;
          ev1 = ev0 @ [PrintData];
          h = ds_heap dataset
      in (case convert_edges S data0 of
            Inl e \<Rightarrow> Inl (e, ev1)
          | Inr data \<Rightarrow>
              (let x_types = map fst (dicts h ! x_dict data);
                   ets = map fst (adj_t_dict data)
               in (case map_of (dicts h ! x_dict data) ''paper'' of
                     None \<Rightarrow> Inl (KeyError, ev1)
                   | Some xa \<Rightarrow>
                       (let (m, h1) = RGCN_init L (size_last L (tensors h ! xa))
                                        (args_hidden_channels a) (ds_num_classes dataset)
                                        (args_num_layers a) (args_dropout a)
                                        (num_nodes_dict data) x_types ets ''paper'' h;
                            ev2 = ev1 @ [ToDevice device, ToDevice device]
                        in (case map_of split_idx ''train'' of
                              None \<Rightarrow> Inl (KeyError, ev2)
                            | Some d \<Rightarrow>
                                (case map_of d ''paper'' of
                                   None \<Rightarrow> Inl (KeyError, ev2)
                                 | Some train_idx \<Rightarrow>
                                     (let w = \<lparr>mem = h1, model = m, grads = None,
                                               grad_enabled = True,
                                               logger = Logger_init (args_runs a) a,
                                               events = ev2\<rparr>
                                      in (case runs_loop L a data split_idx train_idx
                                                 [0..args_runs a - 1] w of
                                            Inl (e, w') \<Rightarrow> Inl (e, events w')
                                          | Inr w' \<Rightarrow>
                                              (case print_statistics (logger w') None of
                                                 Inl e \<Rightarrow> Inl (e, events w')
                                               | Inr line \<Rightarrow> Inr (emit line w')))))))))))"

section \<open>The events a run of the script is meant to produce\<close>

text \<open>
  The calls of one \<^verbatim>\<open>train\<close> and of one \<^verbatim>\<open>test\<close>; the events of one epoch, given
  the loss and the accuracies it ends with; of one run, given these for each of its
  epochs; and of the whole script, given them for every run.
\<close>

definition train_calls :: "bool \<Rightarrow> 'f event list" where
  "train_calls ge =
     [CallTrainMode, CallZeroGrad, CallForward True ge, CallNllLoss, CallBackward, CallStep]"

definition test_calls :: "'f event list" where
  "test_calls =
     [CallEvalMode, CallForward False False, CallEvaluate ''train'', CallEvaluate ''valid'',
      CallEvaluate ''test'']"

definition epoch_events :: "args \<Rightarrow> int \<Rightarrow> int \<Rightarrow> 'f \<times> 'f \<times> 'f \<times> 'f \<Rightarrow> 'f event list" where
  "epoch_events a run epoch out =
     train_calls True @ [CallItem (fst out)] @ test_calls @ [CallAddResult run] @
     (if epoch mod args_log_steps a = 0
      then [PrintEpoch (run + 1) epoch (fst out) (fst (snd out)) (fst (snd (snd out)))
              (snd (snd (snd out)))]
      else [])"

definition run_events :: "args \<Rightarrow> int \<Rightarrow> ('f \<times> 'f \<times> 'f \<times> 'f) list \<Rightarrow> 'f event list" where
  "run_events a run outs =
     [CallReset, CallAdam (args_lr a)] @
     concat (map2 (epoch_events a run) [1..args_epochs a] outs) @
     [PrintStatistics (Some run) [map snd outs]]"

definition main_events ::
  "args \<Rightarrow> device \<Rightarrow> ('f \<times> 'f \<times> 'f \<times> 'f) list list \<Rightarrow> 'f event list" where
  "main_events a dev outss =
     [PrintArgs a, PrintData, ToDevice dev, ToDevice dev] @
     concat (map2 (run_events a) [0..args_runs a - 1] outss) @
     [PrintStatistics None (map (map snd) outss)]"

text \<open>
  An event without the numbers it shows, and the events of the script without
  them: what is called and printed, for which run and which epoch.
\<close>

fun skeleton :: "'f event \<Rightarrow> unit event" where
  "skeleton (PrintEpoch r e l x y z) = PrintEpoch r e () () () ()"
| "skeleton (PrintStatistics r res) = PrintStatistics r []"
| "skeleton (CallItem l) = CallItem ()"
| "skeleton (PrintArgs a) = PrintArgs a"
| "skeleton PrintData = PrintData"
| "skeleton (ToDevice d) = ToDevice d"
| "skeleton CallReset = CallReset"
| "skeleton (CallAdam x) = CallAdam x"
| "skeleton CallTrainMode = CallTrainMode"
| "skeleton CallZeroGrad = CallZeroGrad"
| "skeleton (CallForward t g) = CallForward t g"
| "skeleton CallNllLoss = CallNllLoss"
| "skeleton CallBackward = CallBackward"
| "skeleton CallStep = CallStep"
| "skeleton CallEvalMode = CallEvalMode"
| "skeleton (CallEvaluate s) = CallEvaluate s"
| "skeleton (CallAddResult r) = CallAddResult r"

definition epoch_skeleton :: "args \<Rightarrow> int \<Rightarrow> int \<Rightarrow> unit event list" where
  "epoch_skeleton a run epoch =
     [CallTrainMode, CallZeroGrad, CallForward True True, CallNllLoss, CallBackward, CallStep,
      CallItem (),
      CallEvalMode, CallForward False False, CallEvaluate ''train'', CallEvaluate ''valid'',
      CallEvaluate ''test'', CallAddResult run] @
     (if epoch mod args_log_steps a = 0 then [PrintEpoch (run + 1) epoch () () () ()] else [])"



definition main_device :: "('t, 'g, 's, 'o, 'gr, 'f) lib \<Rightarrow> args \<Rightarrow> device" where
  "main_device L a = (if cuda_is_available L then Cuda (args_device a) else Cpu)"

section \<open>Comparing models and runs\<close>

text \<open>
  The shape of a model: everything but the values of its weights and biases.
\<close>

definition Linear_shape :: "'t Linear \<Rightarrow> int \<times> int \<times> bool" where
  "Linear_shape l = (in_features l, out_features l, bias l \<noteq> None)"

definition lins_shape :: "(string \<times> 't Linear) list \<Rightarrow> (string \<times> int \<times> int \<times> bool) list" where
  "lins_shape ls = map (\<lambda>(key, l). (key, Linear_shape l)) ls"

definition conv_shape ::
  "'t Linear RGCNConv \<Rightarrow> string list \<times> edge_type list \<times> (string \<times> int \<times> int \<times> bool) list
     \<times> (string \<times> int \<times> int \<times> bool) list" where
  "conv_shape c = (node_types c, edge_types c, lins_shape (rel_lins c), lins_shape (root_lins c))"

definition model_shape ::
  "'t Linear RGCN \<Rightarrow> string \<times> (string \<times> tref) list \<times> (string \<times> int \<times> int \<times> bool) list
     \<times> (string list \<times> edge_type list \<times> (string \<times> int \<times> int \<times> bool) list
         \<times> (string \<times> int \<times> int \<times> bool) list) list \<times> rat" where
  "model_shape m =
     (out_type m, embs m, lins_shape (lins m), map conv_shape (convs m), dropout m)"




text \<open>
  An event and a state of the script as they would be had \<^verbatim>\<open>--use_sage\<close> been given
  or not: the flag shows in the printed namespace and in what the logger was
  constructed with.
\<close>

definition event_sage :: "bool \<Rightarrow> 'f event \<Rightarrow> 'f event" where
  "event_sage b e = (case e of PrintArgs a \<Rightarrow> PrintArgs (a\<lparr>args_use_sage := b\<rparr>) | _ \<Rightarrow> e)"

definition world_sage :: "bool \<Rightarrow> ('t, 'g, 'gr, 'f) world \<Rightarrow> ('t, 'g, 'gr, 'f) world" where
  "world_sage b w =
     w\<lparr>logger := (logger w)\<lparr>info := (info (logger w))\<lparr>args_use_sage := b\<rparr>\<rparr>,
       events := map (event_sage b) (events w)\<rparr>"

definition outcome_sage ::
  "bool \<Rightarrow> error \<times> 'f event list + ('t, 'g, 'gr, 'f) world
     \<Rightarrow> error \<times> 'f event list + ('t, 'g, 'gr, 'f) world" where
  "outcome_sage b r =
     (case r of Inl (e, evs) \<Rightarrow> Inl (e, map (event_sage b) evs) | Inr w \<Rightarrow> Inr (world_sage b w))"

definition lift_sage ::
  "bool \<Rightarrow> error \<times> ('t, 'g, 'gr, 'f) world + 'r \<times> ('t, 'g, 'gr, 'f) world
     \<Rightarrow> error \<times> ('t, 'g, 'gr, 'f) world + 'r \<times> ('t, 'g, 'gr, 'f) world" where
  "lift_sage b r =
     (case r of Inl (e, w) \<Rightarrow> Inl (e, world_sage b w) | Inr (x, w) \<Rightarrow> Inr (x, world_sage b w))"

definition lift_sage0 ::
  "bool \<Rightarrow> error \<times> ('t, 'g, 'gr, 'f) world + ('t, 'g, 'gr, 'f) world
     \<Rightarrow> error \<times> ('t, 'g, 'gr, 'f) world + ('t, 'g, 'gr, 'f) world" where
  "lift_sage0 b r =
     (case r of Inl (e, w) \<Rightarrow> Inl (e, world_sage b w) | Inr w \<Rightarrow> Inr (world_sage b w))"

section \<open>A small run of the script\<close>

text \<open>
  Integers stand for tensors, for gradients and for Python floats; the generator and
  the optimizer count their calls. The graph is the one of the conversion example,
  with one feature tensor for \<open>paper\<close>.
\<close>

definition ex_kernels :: "(int, nat, int Linear, coo) torch" where
  "ex_kernels = \<lparr>
     linear = (\<lambda>l x. weight l * x + (case bias l of None \<Rightarrow> 0 | Some b \<Rightarrow> b)),
     matmul_mean = (\<lambda>a x. int (length (rows a)) * x),
     add = (\<lambda>x y. x + y), relu = (\<lambda>x. max 0 x),
     F_dropout = (\<lambda>p tr x g. (if tr then Some (2 * x + int g) else None, Suc g)),
     log_softmax = (\<lambda>x. x - 1)\<rparr>"

definition ex_lib :: "(int, nat, coo, nat, int, int) lib" where
  "ex_lib = \<lparr>kernels = ex_kernels,
     empty_tensor = (\<lambda>sh. 0), tensor_shape = (\<lambda>t. []),
     xavier_uniform = (\<lambda>sh g. (int g + 1, Suc g)),
     kaiming_uniform = (\<lambda>n_in n_out g. (int g mod 3 + 1, Suc g)),
     bias_uniform = (\<lambda>n_in n_out g. (int g mod 2, Suc g)),
     tensor_index = (\<lambda>x idx. x + idx), squeeze = (\<lambda>x. x), nll_loss = (\<lambda>x y. x - y),
     tensor_item = (\<lambda>x. x), argmax = (\<lambda>x. x mod 3), size_last = (\<lambda>x. 4),
     backward = (\<lambda>loss gr. loss + (case gr of None \<Rightarrow> 0 | Some g \<Rightarrow> g)),
     adam_empty = 0,
     adam_step = (\<lambda>lr st gr. (\<lambda>name t. t - (case gr of None \<Rightarrow> 0 | Some g \<Rightarrow> g mod 2), Suc st)),
     evaluator_eval = (\<lambda>y_true y_pred. [(''acc'', 10 * y_true - y_pred)]),
     cuda_is_available = False\<rparr>"

definition ex_dataset :: "(int, nat, int list \<times> int list, coo, unit) dataset" where
  "ex_dataset = \<lparr>ds_heap = \<lparr>tensors = [3], dicts = [[(''paper'', 0)]], rng = 0\<rparr>,
     ds_data = ex_data\<lparr>node_year_dict := Some (), edge_reltype_dict := Some ()\<rparr>,
     ds_split_idx = [(''train'', [(''paper'', 0)]), (''valid'', [(''paper'', 1)]),
                     (''test'', [(''paper'', 2)])],
     ds_num_classes = 3\<rparr>"

definition ex_args :: args where
  "ex_args = default_args\<lparr>args_num_layers := 2, args_epochs := 2, args_runs := 2\<rparr>"

definition ex_adj_t :: "(edge_type \<times> coo) list" where
  "ex_adj_t = [((''author'', ''writes'', ''paper''), \<lparr>rows = [1, 1], cols = [0, 1], sizes = (2, 2)\<rparr>),
               ((''paper'', ''to'', ''author''), \<lparr>rows = [0, 1], cols = [1, 1], sizes = (2, 2)\<rparr>),
               ((''paper'', ''cites'', ''paper''), \<lparr>rows = [0, 1], cols = [1, 0], sizes = (2, 2)\<rparr>)]"

definition ex_world :: "(int, nat, int, int) world" where
  "ex_world =
     (let (m, h) = RGCN_init ex_lib 4 2 3 2 (1 / 2) ex_num_nodes [''paper''] (map fst ex_adj_t)
                     ''paper'' (ds_heap ex_dataset)
      in \<lparr>mem = h, model = m, grads = None, grad_enabled = True,
          logger = Logger_init 2 ex_args, events = []\<rparr>)"

lemma preserved_refl: "preserved n m h h"
  by (simp add: preserved_def)

lemma preserved_trans: "preserved n m h h1 \<Longrightarrow> preserved n m h1 h2 \<Longrightarrow> preserved n m h h2"
  by (simp add: preserved_def)

lemma preserved_alloc: "n \<le> length (tensors h) \<Longrightarrow> preserved n m h (snd (alloc t h))"
  by (simp add: preserved_def alloc_def)

lemma preserved_new_dict: "m \<le> length (dicts h) \<Longrightarrow> preserved n m h (snd (new_dict d h))"
  by (simp add: preserved_def new_dict_def)

lemma preserved_dict_set: "m \<le> d \<Longrightarrow> preserved n m h (dict_set d k a h)"
  by (simp add: preserved_def dict_set_def)

lemma preserved_write: "n \<le> a \<Longrightarrow> preserved n m h (write_tensor a t h)"
  by (simp add: preserved_def write_tensor_def)

lemma fresh_items_update:
  "fresh_items n items \<Longrightarrow> n \<le> a \<Longrightarrow> fresh_items n (AList.update k a items)"
  by (induction items) (auto simp: fresh_items_def)

lemma fresh_items_lookup: "fresh_items n items \<Longrightarrow> map_of items k = Some a \<Longrightarrow> n \<le> a"
  by (auto simp: fresh_items_def dest!: map_of_SomeD)

lemma root_loop_frame:
  "root_loop T c xd od ks h = Inr h' \<Longrightarrow> n \<le> length (tensors h) \<Longrightarrow> m \<le> od \<Longrightarrow>
   od < length (dicts h) \<Longrightarrow> fresh_items n (dicts h ! od) \<Longrightarrow>
   preserved n m h h' \<and> fresh_items n (dicts h' ! od) \<and> length (dicts h') = length (dicts h)"
proof (induction ks arbitrary: h)
  case Nil
  then show ?case by (simp add: preserved_refl)
next
  case (Cons key ks)
  from Cons.prems(1) obtain lin a where
    l: "map_of (root_lins c) key = Some lin" and x: "map_of (dicts h ! xd) key = Some a"
    by (auto split: option.splits)
  define t where "t = linear T lin (tensors h ! a)"
  define h2 where "h2 = dict_set od key (length (tensors h)) (snd (alloc t h))"
  from Cons.prems(1) l x have r: "root_loop T c xd od ks h2 = Inr h'"
    by (simp add: h2_def t_def alloc_def)
  have p: "preserved n m h h2"
    unfolding h2_def using Cons.prems(2,3)
    by (blast intro: preserved_trans preserved_alloc preserved_dict_set)
  have f: "fresh_items n (dicts h2 ! od)"
    using Cons.prems(2,4,5) by (simp add: h2_def dict_set_def alloc_def fresh_items_update)
  have len: "length (dicts h2) = length (dicts h)" "length (tensors h) \<le> length (tensors h2)"
    by (simp_all add: h2_def dict_set_def alloc_def)
  from Cons.IH[OF r] Cons.prems(2,3,4) f len
  have "preserved n m h2 h' \<and> fresh_items n (dicts h' ! od) \<and> length (dicts h') = length (dicts h2)"
    by simp
  with p len show ?case by (auto intro: preserved_trans)
qed

lemma rel_loop_frame:
  "rel_loop T c xd adj od ks h = Inr h' \<Longrightarrow> fresh_items n (dicts h ! od) \<Longrightarrow>
   preserved n m h h' \<and> dicts h' = dicts h"
proof (induction ks arbitrary: h)
  case Nil
  then show ?case by (simp add: preserved_refl)
next
  case (Cons key ks)
  from Cons.prems(1) obtain a adj_t lin b where
    x: "map_of (dicts h ! xd) (fst key) = Some a" and
    j: "map_of adj key = Some adj_t" and
    l: "map_of (rel_lins c) (key_str key) = Some lin" and
    o: "map_of (dicts h ! od) (snd (snd key)) = Some b"
    by (auto split: option.splits simp: Let_def)
  define h2 where
    "h2 = write_tensor b (add T (tensors h ! b) (linear T lin (matmul_mean T adj_t (tensors h ! a)))) h"
  from Cons.prems(1) x j l o have r: "rel_loop T c xd adj od ks h2 = Inr h'"
    by (simp add: h2_def Let_def)
  have nb: "n \<le> b" using Cons.prems(2) o by (rule fresh_items_lookup)
  have p: "preserved n m h h2" unfolding h2_def using nb by (rule preserved_write)
  have d: "dicts h2 = dicts h" by (simp add: h2_def write_tensor_def)
  from Cons.IH[OF r] Cons.prems(2) d have "preserved n m h2 h' \<and> dicts h' = dicts h2" by simp
  with p d show ?case by (auto intro: preserved_trans)
qed

lemma RGCNConv_forward_frame:
  assumes "RGCNConv_forward T c xd adj h = Inr (od, h')"
    and "n \<le> length (tensors h)" and "m \<le> length (dicts h)"
  shows "preserved n m h h' \<and> m \<le> od \<and> od < length (dicts h') \<and> fresh_items n (dicts h' ! od)"
proof -
  define h0 where "h0 = snd (new_dict [] h)"
  have od: "od = length (dicts h)"
    using assms(1) by (auto simp: RGCNConv_forward_def new_dict_def split: sum.splits)
  from assms(1) obtain h1 where
    r1: "root_loop T c xd od (node_types c) h0 = Inr h1" and
    r2: "rel_loop T c xd adj od (edge_types c) h1 = Inr h'"
    by (auto simp: RGCNConv_forward_def new_dict_def h0_def split: sum.splits)
  have p0: "preserved n m h h0" unfolding h0_def using assms(3) by (rule preserved_new_dict)
  have h0: "length (tensors h0) = length (tensors h)" "od < length (dicts h0)"
    "dicts h0 ! od = []"
    by (simp_all add: h0_def new_dict_def od)
  have a: "preserved n m h0 h1 \<and> fresh_items n (dicts h1 ! od) \<and> length (dicts h1) = length (dicts h0)"
    using root_loop_frame[OF r1, of n m] assms(2,3) h0 by (simp add: od fresh_items_def)
  then have b: "preserved n m h1 h' \<and> dicts h' = dicts h1"
    using rel_loop_frame[OF r2, of n m] by simp
  show ?thesis using a b p0 h0 assms(3) od
    by (auto intro: preserved_trans)
qed

lemma preserved_len:
  "preserved n m h h' \<Longrightarrow> n \<le> length (tensors h) \<Longrightarrow> n \<le> length (tensors h')"
  "preserved n m h h' \<Longrightarrow> m \<le> length (dicts h) \<Longrightarrow> m \<le> length (dicts h')"
  by (simp_all add: preserved_def)

lemma lins_loop_frame:
  "lins_loop T mo d items h = Inr h' \<Longrightarrow> n \<le> length (tensors h) \<Longrightarrow> m \<le> d \<Longrightarrow>
   preserved n m h h'"
proof (induction items arbitrary: h)
  case Nil
  then show ?case by (simp add: preserved_refl)
next
  case (Cons item items)
  obtain key a where item: "item = (key, a)" by (cases item)
  from Cons.prems(1) item obtain lin where l: "map_of (lins mo) key = Some lin"
    by (auto split: option.splits)
  define h2 where
    "h2 = dict_set d key (length (tensors h)) (snd (alloc (linear T lin (tensors h ! a)) h))"
  from Cons.prems(1) item l have r: "lins_loop T mo d items h2 = Inr h'"
    by (simp add: h2_def alloc_def)
  have p: "preserved n m h h2"
    unfolding h2_def using Cons.prems(2,3)
    by (blast intro: preserved_trans preserved_alloc preserved_dict_set)
  from Cons.IH[OF r] p Cons.prems(2,3) show ?case
    by (blast intro: preserved_trans preserved_len)
qed

lemma embs_loop_frame: "m \<le> d \<Longrightarrow> preserved n m h (embs_loop d items h)"
proof (induction items arbitrary: h)
  case Nil
  then show ?case by (simp add: preserved_refl)
next
  case (Cons item items)
  obtain key a where item: "item = (key, a)" by (cases item)
  from Cons show ?case
    by (auto simp: item intro: preserved_trans preserved_dict_set)
qed

lemma act_loop_frame:
  "fresh_items n items \<Longrightarrow> m \<le> d \<Longrightarrow> n \<le> length (tensors h) \<Longrightarrow>
   preserved n m h (act_loop T p tr d items h)"
proof (induction items arbitrary: h)
  case Nil
  then show ?case by (simp add: preserved_refl)
next
  case (Cons item items)
  obtain key a where item: "item = (key, a)" by (cases item)
  from Cons.prems(1) item have na: "n \<le> a" and fr: "fresh_items n items"
    by (simp_all add: fresh_items_def)
  define h2 where "h2 = dict_set d key a (write_tensor a (relu T (tensors h ! a)) h)"
  obtain r g where dr: "F_dropout T p tr (tensors h2 ! a) (rng h2) = (r, g)" by fastforce
  define h2g where "h2g = h2\<lparr>rng := g\<rparr>"
  have p2: "preserved n m h h2g"
    unfolding h2_def h2g_def using na Cons.prems(2)
    by (simp add: preserved_def dict_set_def write_tensor_def)
  have l2: "n \<le> length (tensors h2g)" using p2 Cons.prems(3) by (rule preserved_len)
  show ?case
  proof (cases r)
    case None
    with dr have e: "act_loop T p tr d (item # items) h = act_loop T p tr d items (dict_set d key a h2g)"
      by (simp add: item h2_def h2g_def Let_def)
    have p3: "preserved n m h2g (dict_set d key a h2g)"
      using Cons.prems(2) by (rule preserved_dict_set)
    have "preserved n m (dict_set d key a h2g) (act_loop T p tr d items (dict_set d key a h2g))"
      using fr Cons.prems(2) l2 p3 by (intro Cons.IH) (auto intro: preserved_len)
    with p2 p3 e show ?thesis by (auto intro: preserved_trans)
  next
    case (Some t)
    define h4 where "h4 = dict_set d key (length (tensors h2g)) (snd (alloc t h2g))"
    from Some dr have e: "act_loop T p tr d (item # items) h = act_loop T p tr d items h4"
      by (simp add: item h2_def h2g_def h4_def Let_def alloc_def)
    have p3: "preserved n m h2g h4"
      unfolding h4_def using l2 Cons.prems(2)
      by (blast intro: preserved_trans preserved_alloc preserved_dict_set)
    have "preserved n m h4 (act_loop T p tr d items h4)"
      using fr Cons.prems(2) l2 p3 by (intro Cons.IH) (auto intro: preserved_len)
    with p2 p3 e show ?thesis by (auto intro: preserved_trans)
  qed
qed

lemma convs_loop_frame:
  "convs_loop T p tr adj xd cs h = Inr (d, h') \<Longrightarrow> n \<le> length (tensors h) \<Longrightarrow>
   m \<le> length (dicts h) \<Longrightarrow> preserved n m h h'"
proof (induction cs arbitrary: xd h)
  case Nil
  then show ?case by (simp add: preserved_refl)
next
  case (Cons c cs)
  from Cons.prems(1) obtain od h1 where
    f: "RGCNConv_forward T c xd adj h = Inr (od, h1)" and
    r: "convs_loop T p tr adj od cs (act_loop T p tr od (dicts h1 ! od) h1) = Inr (d, h')"
    by (auto split: sum.splits)
  from RGCNConv_forward_frame[OF f Cons.prems(2,3)]
  have p1: "preserved n m h h1" and od: "m \<le> od" and fr: "fresh_items n (dicts h1 ! od)"
    by simp_all
  have l1: "n \<le> length (tensors h1)" "m \<le> length (dicts h1)"
    using p1 Cons.prems(2,3) by (auto intro: preserved_len)
  have p2: "preserved n m h1 (act_loop T p tr od (dicts h1 ! od) h1)"
    using fr od l1(1) by (rule act_loop_frame)
  have "preserved n m (act_loop T p tr od (dicts h1 ! od) h1) h'"
    using r p2 l1 by (intro Cons.IH) (auto intro: preserved_len)
  with p1 p2 show ?case by (blast intro: preserved_trans)
qed

lemma RGCN_forward_frame:
  assumes "RGCN_forward T mo xd adj h = Inr (r, h')"
  shows "preserved (length (tensors h)) (length (dicts h)) h h'"
proof -
  let ?n = "length (tensors h)" and ?m = "length (dicts h)"
  define h1 where "h1 = snd (new_dict (dicts h ! xd) h)"
  from assms obtain h2 d h4 od h5 a where
    s1: "lins_loop T mo ?m (dicts h1 ! ?m) h1 = Inr h2" and
    s2: "convs_loop T (dropout mo) (training mo) adj ?m (butlast (convs mo)) (embs_loop ?m (embs mo) h2)
           = Inr (d, h4)" and
    s3: "RGCNConv_forward T (last (convs mo)) d adj h4 = Inr (od, h5)" and
    s4: "alloc (log_softmax T (tensors h5 ! a)) h5 = (r, h')"
    by (auto simp: RGCN_forward_def new_dict_def h1_def Let_def
        split: sum.splits if_splits option.splits)
  have p1: "preserved ?n ?m h h1" unfolding h1_def by (rule preserved_new_dict) simp
  have p2: "preserved ?n ?m h1 h2"
    using s1 p1 by (intro lins_loop_frame[where d = ?m]) (auto simp: preserved_def)
  have p3: "preserved ?n ?m h2 (embs_loop ?m (embs mo) h2)" by (rule embs_loop_frame) simp
  have p13: "preserved ?n ?m h (embs_loop ?m (embs mo) h2)"
    using p1 p2 p3 by (blast intro: preserved_trans)
  have p4: "preserved ?n ?m (embs_loop ?m (embs mo) h2) h4"
    using s2 p13 by (intro convs_loop_frame) (auto simp: preserved_def)
  have p14: "preserved ?n ?m h h4" using p13 p4 by (rule preserved_trans)
  have p5: "preserved ?n ?m h4 h5"
    using RGCNConv_forward_frame[OF s3, of ?n ?m] p14 by (auto simp: preserved_def)
  have p15: "preserved ?n ?m h h5" using p14 p5 by (rule preserved_trans)
  have "preserved ?n ?m h5 (snd (alloc (log_softmax T (tensors h5 ! a)) h5))" using p15
    by (intro preserved_alloc) (simp add: preserved_def)
  then have "preserved ?n ?m h5 h'" by (simp add: s4)
  with p15 show ?thesis by (rule preserved_trans)
qed

lemma update_snd_subset: "snd ` set (AList.update k a d) \<subseteq> insert a (snd ` set d)"
  by (induction d) auto

lemma update_distinct_snd:
  "distinct (map snd d) \<Longrightarrow> a \<notin> snd ` set d \<Longrightarrow> distinct (map snd (AList.update k a d))"
proof (induction d)
  case Nil
  then show ?case by simp
next
  case (Cons p d)
  have "snd ` set (AList.update k a d) \<subseteq> insert a (snd ` set d)" by (rule update_snd_subset)
  with Cons show ?case by (cases p) (auto simp: image_iff)
qed

lemma map_of_inj_snd:
  "distinct (map snd d) \<Longrightarrow> map_of d k = Some b \<Longrightarrow> map_of d k' = Some b \<Longrightarrow> k = k'"
proof (induction d)
  case Nil
  then show ?case by simp
next
  case (Cons p d)
  obtain q a where p: "p = (q, a)" by (cases p)
  show ?case
  proof (cases "k = q")
    case kq: True
    show ?thesis
    proof (cases "k' = q")
      case True
      with kq show ?thesis by simp
    next
      case False
      with Cons.prems p kq have "a = b" "map_of d k' = Some b" by simp_all
      then have "(k', a) \<in> set d" by (auto dest: map_of_SomeD)
      then have "a \<in> snd ` set d" by force
      with Cons.prems(1) p show ?thesis by simp
    qed
  next
    case nkq: False
    show ?thesis
    proof (cases "k' = q")
      case True
      with Cons.prems p nkq have "a = b" "map_of d k = Some b" by simp_all
      then have "(k, a) \<in> set d" by (auto dest: map_of_SomeD)
      then have "a \<in> snd ` set d" by force
      with Cons.prems(1) p show ?thesis by simp
    next
      case False
      with Cons nkq p show ?thesis by simp
    qed
  qed
qed

lemma out_inv_update:
  assumes "out_inv n h d" and "n \<le> length (tensors h)"
  shows "out_inv n (snd (alloc t h)) (AList.update k (length (tensors h)) d)"
proof -
  have nin: "length (tensors h) \<notin> snd ` set d" using assms(1) by (auto simp: out_inv_def)
  have "distinct (map snd (AList.update k (length (tensors h)) d))"
    using assms(1) nin by (intro update_distinct_snd) (simp_all add: out_inv_def)
  moreover have "\<forall>a \<in> snd ` set (AList.update k (length (tensors h)) d).
      n \<le> a \<and> a < length (tensors (snd (alloc t h)))"
    using update_snd_subset[of k "length (tensors h)" d] assms
    by (fastforce simp: out_inv_def alloc_def)
  ultimately show ?thesis by (simp add: out_inv_def)
qed

lemma map_of_snd_mem: "map_of d k = Some a \<Longrightarrow> a \<in> snd ` set d"
  by (force dest: map_of_SomeD)

lemma root_step:
  assumes inv: "conv_inv n xd od xs h"
    and vals: "\<forall>k a. map_of (dicts h ! od) k = Some a \<longrightarrow> Some (tensors h ! a) = rv k"
    and rv: "rv key = Some t"
  defines "h2 \<equiv> dict_set od key (length (tensors h)) (snd (alloc t h))"
  shows "conv_inv n xd od xs h2"
    and "\<forall>k a. map_of (dicts h2 ! od) k = Some a \<longrightarrow> Some (tensors h2 ! a) = rv k"
    and "take n (tensors h2) = take n (tensors h)"
    and "fst ` set (dicts h2 ! od) = insert key (fst ` set (dicts h ! od))"
proof -
  from inv have od: "od < length (dicts h)" and xd: "xd < length (dicts h)" and ne: "xd \<noteq> od"
    and n: "n \<le> length (tensors h)" and xa: "\<forall>a \<in> snd ` set (dicts h ! xd). a < n"
    and oi: "out_inv n h (dicts h ! od)" and xs: "dict_tensor h xd = xs"
    by (simp_all add: conv_inv_def)
  have t2: "tensors h2 = tensors h @ [t]" by (simp add: h2_def dict_set_def alloc_def)
  have d2: "dicts h2 = (dicts h)[od := AList.update key (length (tensors h)) (dicts h ! od)]"
    by (simp add: h2_def dict_set_def alloc_def)
  have dx: "dicts h2 ! xd = dicts h ! xd" using ne by (simp add: d2)
  have dod: "dicts h2 ! od = AList.update key (length (tensors h)) (dicts h ! od)"
    using od by (simp add: d2)
  have oi2: "out_inv n h2 (dicts h2 ! od)"
    using out_inv_update[OF oi n, of t key] by (simp add: dod out_inv_def t2 alloc_def)
  have "dict_tensor h2 xd k = dict_tensor h xd k" for k
  proof (cases "map_of (dicts h ! xd) k")
    case None
    then show ?thesis by (simp add: dict_tensor_def dx)
  next
    case (Some a)
    then have "a < n" using xa by (auto dest: map_of_snd_mem)
    with n Some show ?thesis by (simp add: dict_tensor_def dx t2 nth_append)
  qed
  then have xs2: "dict_tensor h2 xd = xs" using xs by auto
  show "conv_inv n xd od xs h2"
    using od xd ne n xa oi2 xs2 by (simp add: conv_inv_def d2 t2 dx)
  show "\<forall>k a. map_of (dicts h2 ! od) k = Some a \<longrightarrow> Some (tensors h2 ! a) = rv k"
  proof (intro allI impI)
    fix k a
    assume m: "map_of (dicts h2 ! od) k = Some a"
    show "Some (tensors h2 ! a) = rv k"
    proof (cases "k = key")
      case True
      with m have "a = length (tensors h)" by (simp add: dod update_conv')
      with True rv show ?thesis by (simp add: t2)
    next
      case False
      with m have m': "map_of (dicts h ! od) k = Some a" by (simp add: dod update_conv')
      then have "a < length (tensors h)" using oi by (auto simp: out_inv_def dest: map_of_snd_mem)
      with m' vals show ?thesis by (simp add: t2 nth_append)
    qed
  qed
  show "take n (tensors h2) = take n (tensors h)" using n by (simp add: t2)
  show "fst ` set (dicts h2 ! od) = insert key (fst ` set (dicts h ! od))"
    by (simp add: dod dom_update)
qed

lemma root_loop_values:
  "root_loop T c xd od ks h = Inr h' \<Longrightarrow> conv_inv n xd od xs h \<Longrightarrow>
   \<forall>k a. map_of (dicts h ! od) k = Some a \<longrightarrow> Some (tensors h ! a) = root_val T c xs k \<Longrightarrow>
   conv_inv n xd od xs h' \<and>
   (\<forall>k a. map_of (dicts h' ! od) k = Some a \<longrightarrow> Some (tensors h' ! a) = root_val T c xs k) \<and>
   take n (tensors h') = take n (tensors h) \<and>
   fst ` set (dicts h' ! od) = fst ` set (dicts h ! od) \<union> set ks"
proof (induction ks arbitrary: h)
  case Nil
  then show ?case by simp
next
  case (Cons key ks)
  from Cons.prems(1) obtain lin a where
    l: "map_of (root_lins c) key = Some lin" and x: "map_of (dicts h ! xd) key = Some a"
    by (auto split: option.splits)
  define t where "t = linear T lin (tensors h ! a)"
  define h2 where "h2 = dict_set od key (length (tensors h)) (snd (alloc t h))"
  from Cons.prems(1) l x have r: "root_loop T c xd od ks h2 = Inr h'"
    by (simp add: h2_def t_def alloc_def)
  have "xs key = Some (tensors h ! a)"
    using Cons.prems(2) x by (auto simp: conv_inv_def dict_tensor_def)
  then have rv: "root_val T c xs key = Some t" using l by (simp add: root_val_def t_def)
  note st = root_step[OF Cons.prems(2,3) rv, folded h2_def]
  from Cons.IH[OF r st(1) st(2)] st(3,4) show ?case by auto
qed

lemma rel_step:
  fixes v :: "'t" and h :: "('t, 'g) heap"
  assumes inv: "conv_inv n xd od xs h"
    and b0: "map_of (dicts h ! od) k0 = Some b0"
  defines "h2 \<equiv> write_tensor b0 v h"
  shows "conv_inv n xd od xs h2"
    and "dicts h2 = dicts h"
    and "take n (tensors h2) = take n (tensors h)"
    and "tensors h2 ! b0 = v"
    and "\<And>k b. map_of (dicts h ! od) k = Some b \<Longrightarrow> k \<noteq> k0 \<Longrightarrow> tensors h2 ! b = tensors h ! b"
proof -
  from inv have od: "od < length (dicts h)" and xd: "xd < length (dicts h)" and ne: "xd \<noteq> od"
    and n: "n \<le> length (tensors h)" and xa: "\<forall>a \<in> snd ` set (dicts h ! xd). a < n"
    and oi: "out_inv n h (dicts h ! od)" and xs: "dict_tensor h xd = xs"
    by (simp_all add: conv_inv_def)
  have t2: "tensors h2 = (tensors h)[b0 := v]" and d2: "dicts h2 = dicts h"
    by (simp_all add: h2_def write_tensor_def)
  from b0 oi have nb: "n \<le> b0" and bl: "b0 < length (tensors h)"
    by (auto simp: out_inv_def dest: map_of_snd_mem)
  have "dict_tensor h2 xd k = dict_tensor h xd k" for k
  proof (cases "map_of (dicts h ! xd) k")
    case None
    then show ?thesis by (simp add: dict_tensor_def d2)
  next
    case (Some a)
    then have "a < n" using xa by (auto dest: map_of_snd_mem)
    with nb Some show ?thesis by (simp add: dict_tensor_def d2 t2)
  qed
  then have xs2: "dict_tensor h2 xd = xs" using xs by auto
  show "conv_inv n xd od xs h2"
    using od xd ne n xa oi xs2 by (simp add: conv_inv_def d2 t2 out_inv_def)
  show "dicts h2 = dicts h" by (rule d2)
  show "take n (tensors h2) = take n (tensors h)" using nb by (simp add: t2)
  show "tensors h2 ! b0 = v" using bl by (simp add: t2)
  show "tensors h2 ! b = tensors h ! b" if "map_of (dicts h ! od) k = Some b" "k \<noteq> k0" for k b
  proof -
    have "b \<noteq> b0" using map_of_inj_snd[of "dicts h ! od" k b k0] that b0 oi
      by (auto simp: out_inv_def)
    then show ?thesis by (simp add: t2)
  qed
qed

lemma rel_loop_values:
  "rel_loop T c xd adj od es h = Inr h' \<Longrightarrow> conv_inv n xd od xs h \<Longrightarrow>
   conv_inv n xd od xs h' \<and> dicts h' = dicts h \<and> take n (tensors h') = take n (tensors h) \<and>
   (\<forall>k b. map_of (dicts h ! od) k = Some b \<longrightarrow>
      sum_msgs T (rel_lins c) adj xs (tensors h ! b) (filter (\<lambda>e. snd (snd e) = k) es)
        = Some (tensors h' ! b))"
proof (induction es arbitrary: h)
  case Nil
  then show ?case by simp
next
  case (Cons key es)
  from Cons.prems(1) obtain a adj_t lin b0 where
    x: "map_of (dicts h ! xd) (fst key) = Some a" and
    j: "map_of adj key = Some adj_t" and
    l: "map_of (rel_lins c) (key_str key) = Some lin" and
    o: "map_of (dicts h ! od) (snd (snd key)) = Some b0"
    by (auto split: option.splits simp: Let_def)
  define out where "out = linear T lin (matmul_mean T adj_t (tensors h ! a))"
  define h2 where "h2 = write_tensor b0 (add T (tensors h ! b0) out) h"
  from Cons.prems(1) x j l o have r: "rel_loop T c xd adj od es h2 = Inr h'"
    by (simp add: h2_def out_def Let_def)
  have xk: "xs (fst key) = Some (tensors h ! a)"
    using Cons.prems(2) x by (auto simp: conv_inv_def dict_tensor_def)
  note st = rel_step[OF Cons.prems(2) o, where v = "add T (tensors h ! b0) out", folded h2_def]
  note ih = Cons.IH[OF r st(1)]
  have "sum_msgs T (rel_lins c) adj xs (tensors h ! b)
          (filter (\<lambda>e. snd (snd e) = k) (key # es)) = Some (tensors h' ! b)"
    if m: "map_of (dicts h ! od) k = Some b" for k b
  proof (cases "snd (snd key) = k")
    case True
    with m o have bb: "b = b0" by simp
    from ih m st(2) have "sum_msgs T (rel_lins c) adj xs (tensors h2 ! b)
          (filter (\<lambda>e. snd (snd e) = k) es) = Some (tensors h' ! b)" by simp
    with True xk j l show ?thesis by (simp add: bb st(4) out_def)
  next
    case False
    then have "tensors h2 ! b = tensors h ! b" using st(5)[OF m] by auto
    moreover from ih m st(2) have "sum_msgs T (rel_lins c) adj xs (tensors h2 ! b)
          (filter (\<lambda>e. snd (snd e) = k) es) = Some (tensors h' ! b)" by simp
    ultimately show ?thesis using False by simp
  qed
  with ih st(2,3) show ?case by simp
qed

lemma root_loop_returns:
  "xd \<noteq> od \<Longrightarrow>
   \<forall>k \<in> set ks. map_of (root_lins c) k \<noteq> None \<and> map_of (dicts h ! xd) k \<noteq> None \<Longrightarrow>
   \<exists>h'. root_loop T c xd od ks h = Inr h'"
proof (induction ks arbitrary: h)
  case Nil
  then show ?case by simp
next
  case (Cons key ks)
  from Cons.prems(2) obtain lin a where
    l: "map_of (root_lins c) key = Some lin" and x: "map_of (dicts h ! xd) key = Some a"
    by auto
  define h2 where
    "h2 = dict_set od key (length (tensors h)) (snd (alloc (linear T lin (tensors h ! a)) h))"
  have "dicts h2 ! xd = dicts h ! xd" using Cons.prems(1) by (simp add: h2_def dict_set_def alloc_def)
  with Cons.prems have "\<exists>h'. root_loop T c xd od ks h2 = Inr h'" by (intro Cons.IH) simp_all
  with l x show ?case by (simp add: h2_def alloc_def)
qed

lemma root_loop_frame_dict:
  "root_loop T c xd od ks h = Inr h' \<Longrightarrow> d \<noteq> od \<Longrightarrow> dicts h' ! d = dicts h ! d"
proof (induction ks arbitrary: h)
  case Nil
  then show ?case by simp
next
  case (Cons key ks)
  from Cons.prems(1) obtain lin a where
    l: "map_of (root_lins c) key = Some lin" and x: "map_of (dicts h ! xd) key = Some a"
    by (auto split: option.splits)
  define h2 where
    "h2 = dict_set od key (length (tensors h)) (snd (alloc (linear T lin (tensors h ! a)) h))"
  from Cons.prems(1) l x have r: "root_loop T c xd od ks h2 = Inr h'"
    by (simp add: h2_def alloc_def)
  have "dicts h2 ! d = dicts h ! d" using Cons.prems(2) by (simp add: h2_def dict_set_def alloc_def)
  with Cons.IH[OF r Cons.prems(2)] show ?case by simp
qed

lemma rel_loop_returns:
  "\<forall>e \<in> set es. map_of (dicts h ! xd) (fst e) \<noteq> None \<and> map_of adj e \<noteq> None \<and>
      map_of (rel_lins c) (key_str e) \<noteq> None \<and> map_of (dicts h ! od) (snd (snd e)) \<noteq> None \<Longrightarrow>
   \<exists>h'. rel_loop T c xd adj od es h = Inr h'"
proof (induction es arbitrary: h)
  case Nil
  then show ?case by simp
next
  case (Cons key es)
  from Cons.prems obtain a adj_t lin b0 where
    x: "map_of (dicts h ! xd) (fst key) = Some a" and
    j: "map_of adj key = Some adj_t" and
    l: "map_of (rel_lins c) (key_str key) = Some lin" and
    o: "map_of (dicts h ! od) (snd (snd key)) = Some b0"
    by auto
  define h2 where "h2 = write_tensor b0
     (add T (tensors h ! b0) (linear T lin (matmul_mean T adj_t (tensors h ! a)))) h"
  have "dicts h2 = dicts h" by (simp add: h2_def write_tensor_def)
  with Cons.prems have "\<exists>h'. rel_loop T c xd adj od es h2 = Inr h'" by (intro Cons.IH) simp_all
  with x j l o show ?case by (simp add: h2_def Let_def)
qed

lemma valid_dict_conv_inv:
  assumes "valid_dict h xd"
  shows "conv_inv (length (tensors h)) xd (length (dicts h)) (dict_tensor h xd)
           (snd (new_dict [] h))"
proof -
  from assms have xd: "xd < length (dicts h)"
    and xa: "\<forall>a \<in> snd ` set (dicts h ! xd). a < length (tensors h)"
    by (auto simp: valid_dict_def list_all_iff)
  have "dict_tensor (snd (new_dict [] h)) xd = dict_tensor h xd"
    using xd by (auto simp: dict_tensor_def new_dict_def nth_append)
  with xd xa show ?thesis
    by (simp add: conv_inv_def new_dict_def nth_append out_inv_def)
qed

lemma RGCNConv_forward_values:
  assumes run: "RGCNConv_forward T c xd adj h = Inr (od, h')" and v: "valid_dict h xd"
  shows "fst ` set (dicts h' ! od) = set (node_types c)"
    and "k \<in> set (node_types c) \<Longrightarrow>
         \<exists>t. dict_tensor h' od k = Some t \<and> conv_spec T c (dict_tensor h xd) adj k = Some t"
proof -
  let ?n = "length (tensors h)" and ?xs = "dict_tensor h xd"
  define h0 where "h0 = snd (new_dict [] h)"
  have od: "od = length (dicts h)"
    using run by (auto simp: RGCNConv_forward_def new_dict_def split: sum.splits)
  from run obtain h1 where
    r1: "root_loop T c xd od (node_types c) h0 = Inr h1" and
    r2: "rel_loop T c xd adj od (edge_types c) h1 = Inr h'"
    by (auto simp: RGCNConv_forward_def new_dict_def h0_def split: sum.splits)
  have i0: "conv_inv ?n xd od ?xs h0" unfolding h0_def od using v by (rule valid_dict_conv_inv)
  have e0: "dicts h0 ! od = []" by (simp add: h0_def new_dict_def od)
  have "\<forall>k a. map_of (dicts h0 ! od) k = Some a \<longrightarrow> Some (tensors h0 ! a) = root_val T c ?xs k"
    by (simp add: e0)
  from root_loop_values[OF r1 i0 this]
  have i1: "conv_inv ?n xd od ?xs h1"
    and v1: "\<And>k a. map_of (dicts h1 ! od) k = Some a \<Longrightarrow> Some (tensors h1 ! a) = root_val T c ?xs k"
    and k1: "fst ` set (dicts h1 ! od) = set (node_types c)"
    by (simp_all add: e0)
  from rel_loop_values[OF r2 i1]
  have d2: "dicts h' = dicts h1"
    and v2: "\<And>k b. map_of (dicts h1 ! od) k = Some b \<Longrightarrow>
      sum_msgs T (rel_lins c) adj ?xs (tensors h1 ! b) (filter (\<lambda>e. snd (snd e) = k) (edge_types c))
        = Some (tensors h' ! b)"
    by simp_all
  show "fst ` set (dicts h' ! od) = set (node_types c)" by (simp add: d2 k1)
  show "\<exists>t. dict_tensor h' od k = Some t \<and> conv_spec T c ?xs adj k = Some t"
    if "k \<in> set (node_types c)"
  proof -
    from that k1 have "k \<in> fst ` set (dicts h1 ! od)" by simp
    then obtain b where m: "map_of (dicts h1 ! od) k = Some b"
      by (cases "map_of (dicts h1 ! od) k") (auto simp: map_of_eq_None_iff)
    from v1[OF m] obtain w x where w: "map_of (root_lins c) k = Some w" and x: "?xs k = Some x"
      and t1: "tensors h1 ! b = linear T w x"
      by (auto simp: root_val_def split: option.splits)
    from v2[OF m] w x t1 have "conv_spec T c ?xs adj k = Some (tensors h' ! b)"
      by (simp add: conv_spec_def)
    moreover have "dict_tensor h' od k = Some (tensors h' ! b)"
      using m by (simp add: dict_tensor_def d2)
    ultimately show ?thesis by simp
  qed
qed

lemma RGCNConv_forward_returns:
  assumes v: "valid_dict h xd" and ok: "conv_keys_ok c (dicts h ! xd) adj"
  shows "\<exists>od h'. RGCNConv_forward T c xd adj h = Inr (od, h')"
proof -
  let ?od = "length (dicts h)" and ?n = "length (tensors h)" and ?xs = "dict_tensor h xd"
  define h0 where "h0 = snd (new_dict [] h)"
  from v have xd: "xd < ?od" by (simp add: valid_dict_def)
  have dx0: "dicts h0 ! xd = dicts h ! xd" using xd by (simp add: h0_def new_dict_def nth_append)
  have e0: "dicts h0 ! ?od = []" by (simp add: h0_def new_dict_def)
  have "\<exists>h1. root_loop T c xd ?od (node_types c) h0 = Inr h1"
    using xd ok by (intro root_loop_returns) (auto simp: conv_keys_ok_def list_all_iff dx0)
  then obtain h1 where r1: "root_loop T c xd ?od (node_types c) h0 = Inr h1" ..
  have i0: "conv_inv ?n xd ?od ?xs h0" unfolding h0_def using v by (rule valid_dict_conv_inv)
  have "\<forall>k a. map_of (dicts h0 ! ?od) k = Some a \<longrightarrow> Some (tensors h0 ! a) = root_val T c ?xs k"
    by (simp add: e0)
  from root_loop_values[OF r1 i0 this]
  have k1: "fst ` set (dicts h1 ! ?od) = set (node_types c)" by (simp add: e0)
  have dx1: "dicts h1 ! xd = dicts h ! xd"
    using root_loop_frame_dict[OF r1] xd dx0 by simp
  have "\<exists>h'. rel_loop T c xd adj ?od (edge_types c) h1 = Inr h'"
    using ok k1
    by (intro rel_loop_returns) (auto simp: conv_keys_ok_def list_all_iff dx1 map_of_eq_None_iff)
  then obtain h' where r2: "rel_loop T c xd adj ?od (edge_types c) h1 = Inr h'" ..
  from r1 r2 show ?thesis
    by (simp add: RGCNConv_forward_def new_dict_def h0_def)
qed

section \<open>RGCNConv.forward computes the relational convolution\<close>

text \<open>
  Claim C1. Given a valid feature dictionary and the keys the layer looks up,
  \<^verbatim>\<open>RGCNConv.forward\<close> returns a new dictionary whose keys are the layer's node types,
  and its entry for node type \<open>k\<close> is \<open>root_lins[k](x_dict[k])\<close> plus, for every edge
  type \<open>(s, r, d)\<close> of the layer with \<open>d = k\<close>, the relation's linear transform of the
  mean aggregation of \<open>x_dict[s]\<close> over that relation's edges. The features are those
  of the heap before the call.
\<close>

theorem RGCNConv_forward_correct:
  assumes "valid_dict h xd" and "conv_keys_ok c (dicts h ! xd) adj"
  shows "\<exists>out_dict h'. RGCNConv_forward T c xd adj h = Inr (out_dict, h') \<and>
           fst ` set (dicts h' ! out_dict) = set (node_types c) \<and>
           (\<forall>k \<in> set (node_types c). \<exists>t.
              dict_tensor h' out_dict k = Some t \<and>
              conv_spec T c (dict_tensor h xd) adj k = Some t)"
proof -
  from RGCNConv_forward_returns[OF assms] obtain od h' where
    run: "RGCNConv_forward T c xd adj h = Inr (od, h')" by blast
  from RGCNConv_forward_values[OF run assms(1)] run show ?thesis by blast
qed

theorem RGCNConv_forward_correct_witness:
  "valid_dict ex_heap 0 \<and> conv_keys_ok ex_conv (dicts ex_heap ! 0) ex_adj \<and>
   (\<exists>out_dict h'. RGCNConv_forward ex_torch ex_conv 0 ex_adj ex_heap = Inr (out_dict, h') \<and>
      dict_tensor h' out_dict ''paper'' = Some 269 \<and>
      dict_tensor h' out_dict ''author'' = Some 108)"
proof -
  have v: "valid_dict ex_heap 0" by code_simp
  have k: "conv_keys_ok ex_conv (dicts ex_heap ! 0) ex_adj" by code_simp
  have p: "conv_spec ex_torch ex_conv (dict_tensor ex_heap 0) ex_adj ''paper'' = Some 269"
    by code_simp
  have a: "conv_spec ex_torch ex_conv (dict_tensor ex_heap 0) ex_adj ''author'' = Some 108"
    by code_simp
  have n: "set (node_types ex_conv) = {''paper'', ''author''}" by (simp add: ex_conv_def)
  from RGCNConv_forward_correct[OF v k, of ex_torch] p a n v k show ?thesis
    by fastforce
qed

section \<open>RGCN.forward leaves its inputs alone\<close>

text \<open>
  Claim C9. When \<^verbatim>\<open>RGCN.forward\<close> returns, every dictionary and every tensor that
  existed before the call is what it was: the caller's \<^verbatim>\<open>x_dict\<close> binds the same keys
  to the same tensors, and these tensors (and the embeddings, which the call binds in
  its own copy) hold the same values. All writes of the call, to dictionaries and to
  tensors, go to objects it created.
\<close>

theorem RGCN_forward_keeps_inputs:
  assumes "RGCN_forward T m xd adj h = Inr (out, h')"
  shows "(\<forall>d < length (dicts h). dicts h' ! d = dicts h ! d) \<and>
         (\<forall>a < length (tensors h). tensors h' ! a = tensors h ! a)"
proof -
  from RGCN_forward_frame[OF assms]
  have t: "take (length (tensors h)) (tensors h') = tensors h"
    and d: "take (length (dicts h)) (dicts h') = dicts h"
    by (simp_all add: preserved_def)
  have "dicts h' ! i = dicts h ! i" if "i < length (dicts h)" for i
    using that nth_take[of i "length (dicts h)" "dicts h'"] d by simp
  moreover have "tensors h' ! a = tensors h ! a" if "a < length (tensors h)" for a
    using that nth_take[of a "length (tensors h)" "tensors h'"] t by simp
  ultimately show ?thesis by blast
qed

theorem RGCN_forward_keeps_inputs_witness:
  "\<exists>out h'. RGCN_forward ex_torch ex_model 0 ex_adj ex_heap_model = Inr (out, h') \<and>
     dicts h' ! 0 = [(''paper'', 0)] \<and> tensors h' ! 0 = 3 \<and> tensors h' ! 1 = 5 \<and>
     length (tensors h') = 9"
proof -
  have run: "RGCN_forward ex_torch ex_model 0 ex_adj ex_heap_model =
      Inr (8, \<lparr>tensors = [3, 5, 7, 533, 240, 1066, 481, - 3300, - 3301],
                dicts = [[(''paper'', 0)], [(''paper'', 2), (''author'', 1)],
                         [(''paper'', 5), (''author'', 6)], [(''paper'', 7)]],
                rng = 2\<rparr>)"
    by code_simp
  from RGCN_forward_keeps_inputs[OF run] run show ?thesis
    by (simp add: ex_heap_model_def)
qed





lemma convert_loop_returns:
  "\<forall>keys \<in> fst ` set items. map_of nn (fst keys) \<noteq> None \<and> map_of nn (snd (snd keys)) \<noteq> None \<Longrightarrow>
   \<exists>r. convert_loop L nn items acc = Inr r"
proof (induction items arbitrary: acc)
  case Nil
  show ?case by simp
next
  case (Cons x items)
  obtain keys e where x: "x = (keys, e)" by (cases x)
  from Cons.prems x obtain n0 n2 where
    "map_of nn (fst keys) = Some n0" "map_of nn (snd (snd keys)) = Some n2" by auto
  moreover from Cons.prems have
    "\<forall>keys \<in> fst ` set items. map_of nn (fst keys) \<noteq> None \<and> map_of nn (snd (snd keys)) \<noteq> None"
    by simp
  note Cons.IH[OF this]
  ultimately show ?case by (simp add: x Let_def)
qed

section \<open>The conversion adds reverse edges\<close>




section \<open>The events of train, test and main\<close>

lemma train_result:
  assumes "train L xd adj y ti opt w = Inr ((loss, opt'), w')"
  shows "events w' = events w @ train_calls (grad_enabled w) @ [CallItem loss]"
    and "grad_enabled w' = grad_enabled w" and "logger w' = logger w"
    and "adam_lr opt' = adam_lr opt"
  using assms
  by (auto simp: train_def emit_def Let_def train_calls_def
      split: sum.splits prod.splits)

lemma test_result:
  assumes "test L xd adj y si w = Inr (res, w')"
  shows "events w' = events w @ test_calls"
    and "grad_enabled w' = grad_enabled w" and "logger w' = logger w"
  using assms
  by (auto simp: test_def test_body_def emit_def Let_def test_calls_def
      split: sum.splits prod.splits)


lemma epochs_loop_exact:
  "epochs_loop L a data si ti run opt es w = Inr w' \<Longrightarrow> grad_enabled w \<Longrightarrow>
   \<exists>outs. length outs = length es \<and>
     events w' = events w @ concat (map2 (epoch_events a run) es outs) \<and>
     results (logger w') = (results (logger w))[nat run := results (logger w) ! nat run @ map snd outs] \<and>
     info (logger w') = info (logger w) \<and> grad_enabled w' \<and>
     length (results (logger w')) = length (results (logger w))"
proof (induction es arbitrary: w opt)
  case Nil
  then have "w' = w" by simp
  then show ?case using Nil.prems(2) by (intro exI[of _ "[]"]) simp
next
  case (Cons epoch es)
  from Cons.prems(1) obtain y loss opt1 w1 tr va te w2 lg where
    y: "map_of (y_dict data) ''paper'' = Some y" and
    t1: "train L (x_dict data) (adj_t_dict data) y ti opt w = Inr ((loss, opt1), w1)" and
    t2: "test L (x_dict data) (adj_t_dict data) y si w1 = Inr ((tr, va, te), w2)" and
    ar: "add_result (logger w2) run (tr, va, te) = Inr lg" and
    nz: "args_log_steps a \<noteq> 0"
    by (auto split: option.splits sum.splits prod.splits if_splits simp: Let_def)
  define w3 where "w3 = emit (CallAddResult run) (w2\<lparr>logger := lg\<rparr>)"
  define w4 where "w4 = (if epoch mod args_log_steps a = 0
      then emit (PrintEpoch (run + 1) epoch loss tr va te) w3 else w3)"
  from Cons.prems(1) y t1 t2 ar nz have r: "epochs_loop L a data si ti run opt1 es w4 = Inr w'"
    by (auto simp: w3_def w4_def Let_def)
  note tr1 = train_result[OF t1] and te2 = test_result[OF t2]
  have lg2: "logger w2 = logger w" and ge2: "grad_enabled w2" and
    ev2: "events w2 = events w @ train_calls True @ [CallItem loss] @ test_calls"
    using tr1 te2 Cons.prems(2) by simp_all
  from ar have rng: "0 \<le> run" "nat run < length (results (logger w))"
    and lgr: "results lg = (results (logger w))[nat run := results (logger w) ! nat run @ [(tr, va, te)]]"
    and lgi: "info lg = info (logger w)"
    by (auto simp: add_result_def lg2 split: if_splits)
  have ev4: "events w4 = events w @ epoch_events a run epoch (loss, tr, va, te)"
    by (simp add: w4_def w3_def emit_def ev2 epoch_events_def)
  have l4: "logger w4 = lg" and ge4: "grad_enabled w4"
    using ge2 by (simp_all add: w4_def w3_def emit_def)
  from Cons.IH[OF r ge4] obtain outs where
    len: "length outs = length es" and
    ev: "events w' = events w4 @ concat (map2 (epoch_events a run) es outs)" and
    res: "results (logger w') = (results lg)[nat run := results lg ! nat run @ map snd outs]" and
    inf: "info (logger w') = info lg" and ge: "grad_enabled w'" and
    ll: "length (results (logger w')) = length (results lg)"
    by (auto simp: l4)
  let ?outs = "(loss, tr, va, te) # outs"
  have "results (logger w')
      = (results (logger w))[nat run := results (logger w) ! nat run @ map snd ?outs]"
    using rng by (simp add: res lgr)
  moreover have "events w' = events w @ concat (map2 (epoch_events a run) (epoch # es) ?outs)"
    by (simp add: ev ev4)
  moreover have "length (results (logger w')) = length (results (logger w))"
    by (simp add: ll lgr)
  ultimately show ?case using len inf lgi ge by (intro exI[of _ ?outs]) simp
qed


lemma runs_loop_exact:
  "runs_loop L a data si ti [i..j] w = Inr w' \<Longrightarrow> grad_enabled w \<Longrightarrow> 0 \<le> i \<Longrightarrow>
   results (logger w) = dn @ replicate (nat (j - i + 1)) [] \<Longrightarrow> int (length dn) = i \<Longrightarrow>
   \<exists>outss. length outss = nat (j - i + 1) \<and>
     (\<forall>outs \<in> set outss. length outs = nat (args_epochs a)) \<and>
     events w' = events w @ concat (map2 (run_events a) [i..j] outss) \<and>
     results (logger w') = dn @ map (map snd) outss \<and>
     info (logger w') = info (logger w) \<and> grad_enabled w'"
proof (induction i j arbitrary: w dn rule: upto.induct)
  case (1 i j)
  show ?case
  proof (cases "i \<le> j")
    case False
    then have e: "[i..j] = []" by simp
    with "1.prems"(1) have "w' = w" by simp
    with False e "1.prems"(2,4) show ?thesis by (intro exI[of _ "[]"]) simp
  next
    case True
    then have e: "[i..j] = i # [i + 1..j]" by (simp add: upto.simps)
    obtain m h where mh: "RGCN_reset_parameters L (model w) (mem w) = (m, h)" by fastforce
    define w2 where "w2 = emit (CallAdam (args_lr a)) (emit CallReset (w\<lparr>model := m, mem := h\<rparr>))"
    define opt where "opt = \<lparr>adam_lr = args_lr a, adam_state = adam_empty L\<rparr>"
    from "1.prems"(1) obtain w3 line where
      el: "epochs_loop L a data si ti i opt [1..args_epochs a] w2 = Inr w3" and
      ps: "print_statistics (logger w3) (Some i) = Inr line" and
      rl: "runs_loop L a data si ti [i + 1..j] (emit line w3) = Inr w'"
      by (auto simp: e mh w2_def opt_def Let_def split: sum.splits)
    have ge2: "grad_enabled w2" and ev2: "events w2 = events w @ [CallReset, CallAdam (args_lr a)]"
      and lg2: "logger w2 = logger w"
      using "1.prems"(2) by (simp_all add: w2_def emit_def)
    from epochs_loop_exact[OF el ge2] obtain outs where
      len: "length outs = nat (args_epochs a)" and
      ev3: "events w3 = events w2 @ concat (map2 (epoch_events a i) [1..args_epochs a] outs)" and
      res3: "results (logger w3)
          = (results (logger w2))[nat i := results (logger w2) ! nat i @ map snd outs]" and
      inf3: "info (logger w3) = info (logger w2)" and ge3: "grad_enabled w3"
      by auto
    have ni: "nat i = length dn" using "1.prems"(5) by simp
    obtain k where k: "nat (j - i + 1) = Suc k" and k': "nat (j - (i + 1) + 1) = k"
      using True by (cases "nat (j - i + 1)") auto
    have r3: "results (logger w3) = (dn @ [map snd outs]) @ replicate k []"
      by (simp add: res3 lg2 "1.prems"(4) ni k)
    have "line = PrintStatistics (Some i) [map snd outs]"
      using ps "1.prems"(3) by (auto simp: print_statistics_def r3 ni nth_append split: if_splits)
    then have ev4: "events w3 @ [line] = events w @ run_events a i outs"
      by (simp add: ev3 ev2 run_events_def)
    have "\<exists>outss. length outss = nat (j - (i + 1) + 1) \<and>
       (\<forall>outs \<in> set outss. length outs = nat (args_epochs a)) \<and>
       events w' = events (emit line w3) @ concat (map2 (run_events a) [i + 1..j] outss) \<and>
       results (logger w') = (dn @ [map snd outs]) @ map (map snd) outss \<and>
       info (logger w') = info (logger (emit line w3)) \<and> grad_enabled w'"
      using True rl ge3 "1.prems"(3,5) r3 k'
      by (intro "1.IH") (simp_all add: emit_def)
    then obtain outss where
      l: "length outss = k" and
      a: "\<forall>outs \<in> set outss. length outs = nat (args_epochs a)" and
      ev: "events w' = events (emit line w3) @ concat (map2 (run_events a) [i + 1..j] outss)" and
      rs: "results (logger w') = (dn @ [map snd outs]) @ map (map snd) outss" and
      inf: "info (logger w') = info (logger (emit line w3))" and ge: "grad_enabled w'"
      unfolding k' by blast
    show ?thesis
      using l a len ge rs inf inf3 lg2
      by (intro exI[of _ "outs # outss"]) (simp add: k ev ev4 e emit_def)
  qed
qed

lemma main_unfold:
  fixes w :: "('t, 'g, 'gr, 'f) world"
  assumes "main L S ds a = Inr w"
  obtains data xa m h1 d ti w1 line where
    "convert_edges S ((ds_data ds)\<lparr>node_year_dict := None, edge_reltype_dict := None\<rparr>)
       = Inr data"
    "map_of (dicts (ds_heap ds) ! x_dict data) ''paper'' = Some xa"
    "RGCN_init L (size_last L (tensors (ds_heap ds) ! xa))
      (args_hidden_channels a) (ds_num_classes ds) (args_num_layers a) (args_dropout a)
      (num_nodes_dict data) (map fst (dicts (ds_heap ds) ! x_dict data))
      (map fst (adj_t_dict data)) ''paper'' (ds_heap ds) = (m, h1)"
    "map_of (ds_split_idx ds) ''train'' = Some d" "map_of d ''paper'' = Some ti"
    "runs_loop L a data (ds_split_idx ds) ti [0..args_runs a - 1]
       \<lparr>mem = h1, model = m, grads = None, grad_enabled = True,
        logger = Logger_init (args_runs a) a,
        events = [PrintArgs a, PrintData, ToDevice (main_device L a),
                  ToDevice (main_device L a)]\<rparr> = Inr w1"
    "print_statistics (logger w1) None = Inr line" "w = emit line w1"
proof -
  let ?dev = "main_device L a"
  let ?h = "ds_heap ds"
  from assms obtain data where
    cv: "convert_edges S ((ds_data ds)\<lparr>node_year_dict := None, edge_reltype_dict := None\<rparr>)
           = Inr data"
    by (auto simp: main_def Let_def split: sum.splits)
  from assms cv obtain xa where xa: "map_of (dicts ?h ! x_dict data) ''paper'' = Some xa"
    by (auto simp: main_def Let_def split: option.splits)
  obtain m h1 where ini: "RGCN_init L (size_last L (tensors ?h ! xa))
      (args_hidden_channels a) (ds_num_classes ds) (args_num_layers a) (args_dropout a)
      (num_nodes_dict data) (map fst (dicts ?h ! x_dict data)) (map fst (adj_t_dict data))
      ''paper'' ?h = (m, h1)" by fastforce
  from assms cv xa ini obtain d where d: "map_of (ds_split_idx ds) ''train'' = Some d"
    by (auto simp: main_def Let_def split: option.splits)
  from assms cv xa ini d obtain ti where ti: "map_of d ''paper'' = Some ti"
    by (auto simp: main_def Let_def split: option.splits)
  define w0 :: "('t, 'g, 'gr, 'f) world" where
    "w0 = \<lparr>mem = h1, model = m, grads = None, grad_enabled = True,
            logger = Logger_init (args_runs a) a,
            events = [PrintArgs a, PrintData, ToDevice ?dev, ToDevice ?dev]\<rparr>"
  from assms cv xa ini d ti have
    "(case runs_loop L a data (ds_split_idx ds) ti [0..args_runs a - 1] w0 of
        Inl (e, w') \<Rightarrow> Inl (e, events w')
      | Inr w' \<Rightarrow> (case print_statistics (logger w') None of
                     Inl e \<Rightarrow> Inl (e, events w')
                   | Inr line \<Rightarrow> Inr (emit line w'))) = Inr w"
    by (simp add: main_def Let_def w0_def main_device_def)
  then obtain w1 line where
    "runs_loop L a data (ds_split_idx ds) ti [0..args_runs a - 1] w0 = Inr w1"
    "print_statistics (logger w1) None = Inr line" "w = emit line w1"
    by (auto split: sum.splits prod.splits)
  with cv xa ini d ti show thesis unfolding w0_def by (rule that)
qed

lemma main_exact:
  fixes w :: "('t, 'g, 'gr, 'f) world"
  assumes "main L S ds a = Inr w"
  shows "\<exists>outss. length outss = nat (args_runs a) \<and>
     (\<forall>outs \<in> set outss. length outs = nat (args_epochs a)) \<and>
     events w = main_events a (main_device L a) outss \<and>
     results (logger w) = map (map snd) outss \<and> info (logger w) = a"
proof -
  let ?dev = "main_device L a"
  from assms obtain data xa m h1 d ti w1 line where
    cv: "convert_edges S ((ds_data ds)\<lparr>node_year_dict := None, edge_reltype_dict := None\<rparr>)
       = Inr data" and
    rl: "runs_loop L a data (ds_split_idx ds) ti [0..args_runs a - 1]
       \<lparr>mem = h1, model = m, grads = None, grad_enabled = True,
        logger = Logger_init (args_runs a) a,
        events = [PrintArgs a, PrintData, ToDevice ?dev, ToDevice ?dev]\<rparr> = Inr w1" and
    ps: "print_statistics (logger w1) None = Inr line" and w: "w = emit line w1"
    by (rule main_unfold)
  from runs_loop_exact[OF rl, of "[]"]
  obtain outss where
    l: "length outss = nat (args_runs a)" and
    a: "\<forall>outs \<in> set outss. length outs = nat (args_epochs a)" and
    ev: "events w1 = [PrintArgs a, PrintData, ToDevice ?dev, ToDevice ?dev] @
           concat (map2 (run_events a) [0..args_runs a - 1] outss)" and
    rs: "results (logger w1) = map (map snd) outss" and
    inf: "info (logger w1) = a"
    by (auto simp: Logger_init_def)
  from ps have "line = PrintStatistics None (results (logger w1))"
    by (simp add: print_statistics_def)
  with l a ev rs inf w show ?thesis
    by (intro exI[of _ outss]) (simp add: emit_def main_events_def)
qed

lemma skeleton_epoch_events [simp]:
  "map skeleton (epoch_events a run e out) = epoch_skeleton a run e"
  by (simp add: epoch_events_def epoch_skeleton_def train_calls_def test_calls_def)




lemma concat_nth_split:
  "i < length zs \<Longrightarrow> concat zs = concat (take i zs) @ zs ! i @ concat (drop (Suc i) zs)"
proof -
  assume "i < length zs"
  then have "zs = take i zs @ zs ! i # drop (Suc i) zs" by (rule id_take_nth_drop)
  then have "concat zs = concat (take i zs @ zs ! i # drop (Suc i) zs)" by simp
  then show ?thesis by simp
qed

lemma ex_main_returns: "\<not> isl (main ex_lib ex_sparse_lib ex_dataset ex_args)"
  by code_simp

section \<open>The flag use\_sage\<close>

lemma world_sage_fields [simp]:
  "mem (world_sage b w) = mem w" "model (world_sage b w) = model w"
  "grads (world_sage b w) = grads w" "grad_enabled (world_sage b w) = grad_enabled w"
  "events (world_sage b w) = map (event_sage b) (events w)"
  "logger (world_sage b w) = (logger w)\<lparr>info := (info (logger w))\<lparr>args_use_sage := b\<rparr>\<rparr>"
  by (simp_all add: world_sage_def)

lemma train_sage:
  "train L xd adj y ti opt (world_sage b w) = lift_sage b (train L xd adj y ti opt w)"
  by (simp add: train_def Let_def emit_def world_sage_def event_sage_def lift_sage_def
      split: sum.splits prod.splits)

lemma test_sage:
  "test L xd adj y si (world_sage b w) = lift_sage b (test L xd adj y si w)"
  by (simp add: test_def test_body_def Let_def emit_def world_sage_def event_sage_def lift_sage_def
      split: sum.splits prod.splits)


lemma add_result_sage:
  "add_result (lg0\<lparr>info := i\<rparr>) run res =
     (case add_result lg0 run res of Inl e \<Rightarrow> Inl e | Inr lg \<Rightarrow> Inr (lg\<lparr>info := i\<rparr>))"
  by (simp add: add_result_def)

lemma add_result_info: "add_result lg run res = Inr lg' \<Longrightarrow> info lg' = info lg"
  by (auto simp: add_result_def split: if_splits)

lemma print_statistics_sage:
  "print_statistics (lg\<lparr>info := i\<rparr>) r = print_statistics lg r"
  by (simp add: print_statistics_def split: option.splits)

lemma print_statistics_event:
  "print_statistics lg r = Inr line \<Longrightarrow> event_sage b line = line"
  by (auto simp: print_statistics_def event_sage_def split: option.splits if_splits)

lemma emit_sage:
  "event_sage b e = e \<Longrightarrow> emit e (world_sage b w) = world_sage b (emit e w)"
  by (simp add: emit_def world_sage_def)

lemma epochs_loop_sage:
  "epochs_loop L (a\<lparr>args_use_sage := b\<rparr>) data si ti run opt es (world_sage b w)
     = lift_sage0 b (epochs_loop L a data si ti run opt es w)"
proof (induction es arbitrary: w opt)
  case Nil
  show ?case by (simp add: lift_sage0_def)
next
  case (Cons epoch es)
  show ?case
  proof (cases "map_of (y_dict data) ''paper''")
    case None
    then show ?thesis by (simp add: lift_sage0_def)
  next
    case (Some y)
    show ?thesis
    proof (cases "train L (x_dict data) (adj_t_dict data) y ti opt w")
      case (Inl ew)
      with Some show ?thesis
        by (cases ew) (simp add: train_sage lift_sage_def lift_sage0_def)
    next
      case (Inr r1)
      obtain loss opt1 w1 where r1: "r1 = ((loss, opt1), w1)" by (cases r1) auto
      show ?thesis
      proof (cases "test L (x_dict data) (adj_t_dict data) y si w1")
        case (Inl ew)
        with Some Inr r1 show ?thesis
          by (cases ew) (simp add: train_sage test_sage lift_sage_def lift_sage0_def)
      next
        case t2: (Inr r2)
        obtain tr va te w2 where r2: "r2 = ((tr, va, te), w2)" by (cases r2) auto
        show ?thesis
        proof (cases "add_result (logger w2) run (tr, va, te)")
          case (Inl e)
          with Some Inr r1 t2 r2 show ?thesis
            by (simp add: train_sage test_sage add_result_sage lift_sage_def lift_sage0_def)
        next
          case ar: (Inr lg)
          have inf: "info lg = info (logger w2)" using ar by (rule add_result_info)
          define w3 where "w3 = emit (CallAddResult run) (w2\<lparr>logger := lg\<rparr>)"
          have w3s: "emit (CallAddResult run)
               (world_sage b w2\<lparr>logger := lg\<lparr>info := info (logger w2)\<lparr>args_use_sage := b\<rparr>\<rparr>\<rparr>)
             = world_sage b w3"
            by (simp add: w3_def emit_def world_sage_def event_sage_def inf)
          define w4 where "w4 = (if epoch mod args_log_steps a = 0
              then emit (PrintEpoch (run + 1) epoch loss tr va te) w3 else w3)"
          have w4s: "(if epoch mod args_log_steps a = 0
              then emit (PrintEpoch (run + 1) epoch loss tr va te) (world_sage b w3)
              else world_sage b w3) = world_sage b w4"
            by (simp add: w4_def emit_sage event_sage_def)
          show ?thesis
          proof (cases "args_log_steps a = 0")
            case True
            with Some Inr r1 t2 r2 ar show ?thesis
              by (simp add: train_sage test_sage add_result_sage lift_sage_def lift_sage0_def
                  w3s w3_def[symmetric])
          next
            case False
            with Some Inr r1 t2 r2 ar show ?thesis
              by (simp add: train_sage test_sage add_result_sage lift_sage_def
                  w3s w3_def[symmetric] w4s w4_def[symmetric] Cons.IH)
          qed
        qed
      qed
    qed
  qed
qed

lemma runs_loop_sage:
  "runs_loop L (a\<lparr>args_use_sage := b\<rparr>) data si ti rs (world_sage b w)
     = lift_sage0 b (runs_loop L a data si ti rs w)"
proof (induction rs arbitrary: w)
  case Nil
  show ?case by (simp add: lift_sage0_def)
next
  case (Cons run rs)
  obtain m h where mh: "RGCN_reset_parameters L (model w) (mem w) = (m, h)" by fastforce
  define w2 where "w2 = emit (CallAdam (args_lr a)) (emit CallReset (w\<lparr>model := m, mem := h\<rparr>))"
  define opt where "opt = \<lparr>adam_lr = args_lr a, adam_state = adam_empty L\<rparr>"
  have w2s: "emit (CallAdam (args_lr a)) (emit CallReset (world_sage b w\<lparr>model := m, mem := h\<rparr>))
      = world_sage b w2"
    by (simp add: w2_def emit_def world_sage_def event_sage_def)
  show ?case
  proof (cases "epochs_loop L a data si ti run opt [1..args_epochs a] w2")
    case (Inl ew)
    then show ?thesis
      by (cases ew)
        (simp add: mh w2s w2_def[symmetric] opt_def[symmetric] epochs_loop_sage lift_sage0_def)
  next
    case (Inr w3)
    show ?thesis
    proof (cases "print_statistics (logger w3) (Some run)")
      case (Inl e)
      with Inr show ?thesis
        by (simp add: mh w2s w2_def[symmetric] opt_def[symmetric] epochs_loop_sage lift_sage0_def
            print_statistics_sage)
    next
      case ps: (Inr line)
      have "emit line (world_sage b w3) = world_sage b (emit line w3)"
        using print_statistics_event[OF ps] by (rule emit_sage)
      with Inr ps show ?thesis
        by (simp add: mh w2s w2_def[symmetric] opt_def[symmetric] epochs_loop_sage lift_sage0_def
            print_statistics_sage Cons.IH[unfolded lift_sage0_def])
    qed
  qed
qed


lemma main_sage:
  fixes L :: "('t, 'g, 's, 'o, 'gr, 'f) lib"
  shows "(main L S ds (a\<lparr>args_use_sage := b\<rparr>)
            :: error \<times> 'f event list + ('t, 'g, 'gr, 'f) world)
         = outcome_sage b (main L S ds a)"
proof -
  let ?a' = "a\<lparr>args_use_sage := b\<rparr>"
  let ?data0 = "(ds_data ds)\<lparr>node_year_dict := None, edge_reltype_dict := None\<rparr>"
  show ?thesis
  proof (cases "convert_edges S ?data0")
    case (Inl e)
    then show ?thesis by (simp add: main_def outcome_sage_def event_sage_def)
  next
    case (Inr data)
    show ?thesis
    proof (cases "map_of (dicts (ds_heap ds) ! x_dict data) ''paper''")
      case None
      with Inr show ?thesis by (simp add: main_def outcome_sage_def event_sage_def)
    next
      case (Some xa)
      obtain m h1 where ini: "RGCN_init L (size_last L (tensors (ds_heap ds) ! xa))
          (args_hidden_channels a) (ds_num_classes ds) (args_num_layers a) (args_dropout a)
          (num_nodes_dict data) (map fst (dicts (ds_heap ds) ! x_dict data))
          (map fst (adj_t_dict data)) ''paper'' (ds_heap ds) = (m, h1)" by fastforce
      show ?thesis
      proof (cases "map_of (ds_split_idx ds) ''train''")
        case None
        with Inr Some ini show ?thesis
          by (simp add: main_def outcome_sage_def event_sage_def Let_def)
      next
        case d: (Some d)
        show ?thesis
        proof (cases "map_of d ''paper''")
          case None
          with Inr Some ini d show ?thesis
            by (simp add: main_def outcome_sage_def event_sage_def Let_def)
        next
          case ti: (Some ti)
          define dev where "dev = (if cuda_is_available L then Cuda (args_device a) else Cpu)"
          define w0 :: "('t, 'g, 'gr, 'f) world" where
            "w0 = \<lparr>mem = h1, model = m, grads = None, grad_enabled = True,
                   logger = Logger_init (args_runs a) a,
                   events = [PrintArgs a, PrintData, ToDevice dev, ToDevice dev]\<rparr>"
          have w0s: "\<lparr>mem = h1, model = m, grads = None, grad_enabled = True,
                   logger = Logger_init (args_runs a) ?a',
                   events = [PrintArgs ?a', PrintData, ToDevice dev, ToDevice dev]\<rparr>
                 = world_sage b w0"
            by (simp add: w0_def world_sage_def event_sage_def Logger_init_def)
          have m1: "main L S ds a =
              (case runs_loop L a data (ds_split_idx ds) ti [0..args_runs a - 1] w0 of
                 Inl (e, w') \<Rightarrow> Inl (e, events w')
               | Inr w' \<Rightarrow> (case print_statistics (logger w') None of
                     Inl e \<Rightarrow> Inl (e, events w')
                   | Inr line \<Rightarrow> Inr (emit line w')))"
            using Inr Some ini d ti by (simp add: main_def Let_def w0_def dev_def)
          have m2: "main L S ds ?a' =
              (case runs_loop L ?a' data (ds_split_idx ds) ti [0..args_runs a - 1] (world_sage b w0) of
                 Inl (e, w') \<Rightarrow> Inl (e, events w')
               | Inr w' \<Rightarrow> (case print_statistics (logger w') None of
                     Inl e \<Rightarrow> Inl (e, events w')
                   | Inr line \<Rightarrow> Inr (emit line w')))"
            using Inr Some ini d ti by (simp add: main_def Let_def w0s[symmetric] dev_def)
          show ?thesis
          proof (cases "runs_loop L a data (ds_split_idx ds) ti [0..args_runs a - 1] w0")
            case (Inl ew)
            then show ?thesis
              by (cases ew) (simp add: m1 m2 runs_loop_sage lift_sage0_def outcome_sage_def)
          next
            case rl: (Inr w1)
            show ?thesis
            proof (cases "print_statistics (logger w1) None")
              case (Inl e)
              with rl show ?thesis
                by (simp add: m1 m2 runs_loop_sage lift_sage0_def outcome_sage_def
                    print_statistics_sage)
            next
              case ps: (Inr line)
              have "emit line (world_sage b w1) = world_sage b (emit line w1)"
                using print_statistics_event[OF ps] by (rule emit_sage)
              with rl ps show ?thesis
                by (simp add: m1 m2 runs_loop_sage lift_sage0_def outcome_sage_def
                    print_statistics_sage)
            qed
          qed
        qed
      qed
    qed
  qed
qed

lemma epoch_events_sage: "e \<in> set (epoch_events a run ep out) \<Longrightarrow> event_sage b e = e"
  by (auto simp: epoch_events_def train_calls_def test_calls_def event_sage_def split: if_splits)

lemma run_events_sage: "e \<in> set (run_events a run outs) \<Longrightarrow> event_sage b e = e"
  by (auto simp: run_events_def event_sage_def dest!: set_zip_leftD epoch_events_sage[where b = b]
      elim!: in_set_zipE)

section \<open>Resetting the parameters\<close>





















section \<open>The order of the pipeline\<close>



section \<open>What is printed\<close>

text \<open>
  Claim C7, as the script behaves. When \<^verbatim>\<open>main\<close> runs to the end, then for every run
  \<open>r\<close> and every epoch \<open>e\<close> that is a multiple of \<^verbatim>\<open>log_steps\<close>, the events hold
  the training step and the evaluation of that epoch followed by the printed line with
  \<open>r + 1\<close>, \<open>e\<close>, the loss that this training step returned and the three accuracies
  that the logger holds for this epoch; the statistics of run \<open>r\<close> are printed, and the
  last line printed is the statistics over all runs.
\<close>

theorem main_prints_epoch_line:
  fixes w :: "('t, 'g, 'gr, 'f) world"
  assumes run: "main L S ds a = Inr w"
    and r: "0 \<le> r" "r < args_runs a" and e: "1 \<le> e" "e \<le> args_epochs a"
    and gate: "e mod args_log_steps a = 0"
  shows "(\<exists>loss tr va te pre post.
            events w = pre @ train_calls True @ [CallItem loss] @ test_calls @
                         [CallAddResult r, PrintEpoch (r + 1) e loss tr va te] @ post \<and>
            results (logger w) ! nat r ! nat (e - 1) = (tr, va, te)) \<and>
         PrintStatistics (Some r) [results (logger w) ! nat r] \<in> set (events w) \<and>
         last (events w) = PrintStatistics None (results (logger w))"
proof -
  from main_exact[OF run] obtain outss where
    l: "length outss = nat (args_runs a)" and
    al: "\<forall>outs \<in> set outss. length outs = nat (args_epochs a)" and
    ev: "events w = main_events a (main_device L a) outss" and
    rs: "results (logger w) = map (map snd) outss"
    by blast
  let ?dev = "main_device L a"
  let ?rs = "[0..args_runs a - 1]" and ?es = "[1..args_epochs a]"
  let ?zs = "map2 (run_events a) ?rs outss"
  define outs where "outs = outss ! nat r"
  have rl: "nat r < length outss" using r l by simp
  then have lo: "length outs = nat (args_epochs a)" using al by (simp add: outs_def)
  have rr: "?rs ! nat r = r" using r by (simp add: nth_upto)
  have zl: "nat r < length ?zs" using rl l by simp
  have zr: "?zs ! nat r = run_events a r outs" using zl rl l rr by (simp add: outs_def)
  let ?ys = "map2 (epoch_events a r) ?es outs"
  define out where "out = outs ! nat (e - 1)"
  have el: "nat (e - 1) < length outs" using e lo by simp
  have ee: "?es ! nat (e - 1) = e" using e by (simp add: nth_upto)
  have yl: "nat (e - 1) < length ?ys" using el lo by simp
  have ye: "?ys ! nat (e - 1) = epoch_events a r e out" using yl el lo ee by (simp add: out_def)
  obtain loss tr va te where out: "out = (loss, tr, va, te)" by (cases out) auto
  have res: "results (logger w) ! nat r = map snd outs" using rl by (simp add: rs outs_def)
  have res2: "results (logger w) ! nat r ! nat (e - 1) = (tr, va, te)"
    using el out by (simp add: res out_def[symmetric])
  define pre where "pre = [PrintArgs a, PrintData, ToDevice ?dev, ToDevice ?dev] @
     concat (take (nat r) ?zs) @ [CallReset, CallAdam (args_lr a)] @ concat (take (nat (e - 1)) ?ys)"
  define post where "post = concat (drop (Suc (nat (e - 1))) ?ys) @
     [PrintStatistics (Some r) [map snd outs]] @ concat (drop (Suc (nat r)) ?zs) @
     [PrintStatistics None (map (map snd) outss)]"
  have e1: "events w = [PrintArgs a, PrintData, ToDevice ?dev, ToDevice ?dev] @
      (concat (take (nat r) ?zs) @ ?zs ! nat r @ concat (drop (Suc (nat r)) ?zs)) @
      [PrintStatistics None (map (map snd) outss)]"
    unfolding ev main_events_def using concat_nth_split[OF zl] by simp
  have e2: "run_events a r outs = [CallReset, CallAdam (args_lr a)] @
      (concat (take (nat (e - 1)) ?ys) @ ?ys ! nat (e - 1) @ concat (drop (Suc (nat (e - 1))) ?ys)) @
      [PrintStatistics (Some r) [map snd outs]]"
    unfolding run_events_def using concat_nth_split[OF yl] by simp
  have full: "events w = pre @ epoch_events a r e out @ post"
    unfolding e1 zr e2 ye pre_def post_def by simp
  from full have "events w = pre @ train_calls True @ [CallItem loss] @ test_calls @
                         [CallAddResult r, PrintEpoch (r + 1) e loss tr va te] @ post"
    using gate by (simp add: epoch_events_def out)
  moreover have "PrintStatistics (Some r) [results (logger w) ! nat r] \<in> set (events w)"
    unfolding full by (simp add: post_def res)
  moreover have "last (events w) = PrintStatistics None (results (logger w))"
    by (simp add: ev main_events_def rs)
  ultimately show ?thesis using res2 by blast
qed

theorem main_prints_epoch_line_witness:
  "\<exists>w. main ex_lib ex_sparse_lib ex_dataset ex_args = Inr w \<and>
     (\<exists>loss tr va te. PrintEpoch 2 2 loss tr va te \<in> set (events w) \<and>
        results (logger w) ! 1 ! 1 = (tr, va, te)) \<and>
     PrintStatistics (Some 1) [results (logger w) ! 1] \<in> set (events w) \<and>
     last (events w) = PrintStatistics None (results (logger w))"
proof -
  from ex_main_returns obtain w where
    run: "main ex_lib ex_sparse_lib ex_dataset ex_args = Inr w"
    by (cases "main ex_lib ex_sparse_lib ex_dataset ex_args") auto
  have h: "(0::int) \<le> 1" "1 < args_runs ex_args" "(1::int) \<le> 2" "2 \<le> args_epochs ex_args"
    "2 mod args_log_steps ex_args = 0"
    by (simp_all add: ex_args_def default_args_def)
  from main_prints_epoch_line[OF run h] obtain loss tr va te pre post where
    ev: "events w = pre @ train_calls True @ [CallItem loss] @ test_calls @
                      [CallAddResult 1, PrintEpoch (1 + 1) 2 loss tr va te] @ post" and
    rs: "results (logger w) ! nat 1 ! nat (2 - 1) = (tr, va, te)" and
    st: "PrintStatistics (Some 1) [results (logger w) ! nat 1] \<in> set (events w)" and
    la: "last (events w) = PrintStatistics None (results (logger w))"
    by blast
  from ev have "PrintEpoch 2 2 loss tr va te \<in> set (events w)" by simp
  with rs st la run show ?thesis by auto
qed

text \<open>
  Claim C7 as stated fails when \<^verbatim>\<open>log_steps\<close> is not 1: with \<^verbatim>\<open>--log_steps 2\<close>, one
  run and one epoch, the script runs to the end and prints no line for epoch 1.
\<close>

theorem main_prints_every_epoch_counterexample:
  "\<not> isl (main ex_lib ex_sparse_lib ex_dataset
           (ex_args\<lparr>args_log_steps := 2, args_epochs := 1, args_runs := 1\<rparr>)) \<and>
   PrintEpoch 1 1 () () () () \<notin> set (map skeleton (events (projr
      (main ex_lib ex_sparse_lib ex_dataset
         (ex_args\<lparr>args_log_steps := 2, args_epochs := 1, args_runs := 1\<rparr>)))))"
  by code_simp

section \<open>test\<close>

lemma ex_test_returns:
  "map_sum (\<lambda>x. ()) fst (test ex_lib 0 ex_adj_t 1 (ds_split_idx ex_dataset) ex_world)
     = Inr (8, 17, 26)"
  by code_simp

text \<open>
  Claim C5. When \<^verbatim>\<open>test\<close> returns \<open>(train_acc, valid_acc, test_acc)\<close>, the model was
  called in eval mode with gradient tracking off, and with \<open>y_pred\<close> the argmax of its
  output the three components are, in this order, the \<open>'acc'\<close> entry of the
  evaluator's result for \<open>y_true\<close> and \<open>y_pred\<close> indexed by
  \<open>split_idx['train']['paper']\<close>, by \<open>split_idx['valid']['paper']\<close> and by
  \<open>split_idx['test']['paper']\<close>. Afterwards the model is still in eval mode and
  gradient tracking is what it was before the call.
\<close>

theorem test_returns_accuracies:
  assumes "test L xd adj y_true split_idx w = Inr ((train_acc, valid_acc, test_acc), w')"
  shows "\<exists>r h. RGCN_forward (kernels L) ((model w)\<lparr>training := False\<rparr>) xd adj (mem w) = Inr (r, h) \<and>
           split_acc L split_idx y_true (argmax L (tensors h ! r)) ''train'' = Inr train_acc \<and>
           split_acc L split_idx y_true (argmax L (tensors h ! r)) ''valid'' = Inr valid_acc \<and>
           split_acc L split_idx y_true (argmax L (tensors h ! r)) ''test'' = Inr test_acc \<and>
           events w' = events w @ [CallEvalMode, CallForward False False, CallEvaluate ''train'',
                                   CallEvaluate ''valid'', CallEvaluate ''test''] \<and>
           training (model w') = False \<and> grad_enabled w' = grad_enabled w"
  using assms
  by (auto simp: test_def test_body_def emit_def Let_def
      split: sum.splits prod.splits)

theorem test_returns_accuracies_witness:
  "\<exists>w'. test ex_lib 0 ex_adj_t 1 (ds_split_idx ex_dataset) ex_world = Inr ((8, 17, 26), w') \<and>
     events w' = [CallEvalMode, CallForward False False, CallEvaluate ''train'',
                  CallEvaluate ''valid'', CallEvaluate ''test''] \<and>
     training (model w') = False"
proof -
  from ex_test_returns obtain w' where
    run: "test ex_lib 0 ex_adj_t 1 (ds_split_idx ex_dataset) ex_world = Inr ((8, 17, 26), w')"
    by (cases "test ex_lib 0 ex_adj_t 1 (ds_split_idx ex_dataset) ex_world") auto
  have e: "events ex_world = []"
    by (simp add: ex_world_def Let_def split: prod.splits)
  from test_returns_accuracies[OF run] e run show ?thesis by auto
qed

section \<open>The flag use\_sage is not read\<close>

text \<open>
  Claim C8. A run of \<^verbatim>\<open>main\<close> with the flag \<^verbatim>\<open>--use_sage\<close> set to \<open>b\<close> is the run
  without that change, except that the printed namespace shows \<open>b\<close> and that the
  logger was constructed with a namespace that holds \<open>b\<close>: the same error or none, the
  same heap, model and results. When the script runs to the end, the events of the two
  runs differ in the first one only, the print of the namespace.
\<close>

theorem use_sage_is_not_read:
  fixes L :: "('t, 'g, 's, 'o, 'gr, 'f) lib"
  shows "(main L S ds (a\<lparr>args_use_sage := b\<rparr>)
            :: error \<times> 'f event list + ('t, 'g, 'gr, 'f) world)
           = outcome_sage b (main L S ds a) \<and>
         (\<forall>w :: ('t, 'g, 'gr, 'f) world. main L S ds a = Inr w \<longrightarrow>
            (\<exists>w'. main L S ds (a\<lparr>args_use_sage := b\<rparr>) = Inr w' \<and>
               events w' = PrintArgs (a\<lparr>args_use_sage := b\<rparr>) # tl (events w) \<and>
               mem w' = mem w \<and> model w' = model w \<and> grads w' = grads w \<and>
               results (logger w') = results (logger w)))"
proof (intro conjI allI impI)
  show "(main L S ds (a\<lparr>args_use_sage := b\<rparr>)
            :: error \<times> 'f event list + ('t, 'g, 'gr, 'f) world)
           = outcome_sage b (main L S ds a)"
    by (rule main_sage)
next
  fix w :: "('t, 'g, 'gr, 'f) world"
  assume run: "main L S ds a = Inr w"
  then have run': "main L S ds (a\<lparr>args_use_sage := b\<rparr>) = Inr (world_sage b w)"
    by (simp add: main_sage outcome_sage_def)
  from main_exact[OF run] obtain outss where
    ev: "events w = main_events a (main_device L a) outss" by blast
  let ?rest = "concat (map2 (run_events a) [0..args_runs a - 1] outss)"
  have "event_sage b e = e" if "e \<in> set ?rest" for e
    using that by (auto elim!: in_set_zipE dest: run_events_sage[where b = b])
  then have "map (event_sage b) ?rest = ?rest" by (intro map_idI)
  then have "map (event_sage b) (events w) = PrintArgs (a\<lparr>args_use_sage := b\<rparr>) # tl (events w)"
    by (simp add: ev main_events_def event_sage_def)
  with run' show "\<exists>w'. main L S ds (a\<lparr>args_use_sage := b\<rparr>) = Inr w' \<and>
               events w' = PrintArgs (a\<lparr>args_use_sage := b\<rparr>) # tl (events w) \<and>
               mem w' = mem w \<and> model w' = model w \<and> grads w' = grads w \<and>
               results (logger w') = results (logger w)"
    by (intro exI[of _ "world_sage b w"]) simp
qed

theorem use_sage_is_not_read_witness:
  "\<exists>w w'. main ex_lib ex_sparse_lib ex_dataset ex_args = Inr w \<and>
     main ex_lib ex_sparse_lib ex_dataset (ex_args\<lparr>args_use_sage := True\<rparr>) = Inr w' \<and>
     events w' = PrintArgs (ex_args\<lparr>args_use_sage := True\<rparr>) # tl (events w) \<and>
     model w' = model w"
proof -
  from ex_main_returns obtain w where
    run: "main ex_lib ex_sparse_lib ex_dataset ex_args = Inr w"
    by (cases "main ex_lib ex_sparse_lib ex_dataset ex_args") auto
  from use_sage_is_not_read[where L = ex_lib and S = ex_sparse_lib and ds = ex_dataset
      and a = ex_args and b = True] run
  show ?thesis by blast
qed

section \<open>Every run starts afresh\<close>



end
